theory Spec2Isabelle
  imports Complex_Main
begin

section \<open>The rmc exporters: blocks to SVG and to Markdown\<close>

text \<open>
  A shallow embedding of \<^verbatim>\<open>src/rmc/exporters/svg.py\<close> and
  \<^verbatim>\<open>src/rmc/exporters/markdown.py\<close>.

  Numbers. Python's \<^verbatim>\<open>float\<close> values are modelled by the rationals they denote
  (\<^typ>\<open>rat\<close>), with exact arithmetic; rounding, infinities and NaN are outside the
  model. Every concrete input used below is a small integer or a half, on which binary64
  arithmetic is exact. Python's \<^verbatim>\<open>int\<close> is \<^typ>\<open>int\<close>. A value that is an
  \<^verbatim>\<open>int\<close> on one path and a \<^verbatim>\<open>float\<close> on another (the page height) is a
  \<open>pynum\<close>.

  Exceptions are values of \<open>py_error\<close>; a function that can raise returns
  \<open>py_error + 'a\<close>, with \<open>Inl\<close> for the exception.
\<close>

subsection \<open>Values, exceptions\<close>

datatype py_error =
    TypeError
  | IndexError
  | LookupError
  | ZeroDivisionError
  | UnboundLocalError
  | AttributeError
  | PenError

datatype pynum = PyInt int | PyFloat rat

fun num_val :: "pynum \<Rightarrow> rat" where
  "num_val (PyInt i) = of_int i"
| "num_val (PyFloat q) = q"

subsection \<open>The decoded blocks (owned by the rmscene library, read here)\<close>

text \<open>
  Only the attributes that the exporters read are kept. An identifier (\<open>item_id\<close>,
  \<open>block_id\<close>) and an enum member's \<^verbatim>\<open>name\<close> are kept as the text that
  formatting them yields, an enum member's \<^verbatim>\<open>value\<close> as an integer.
\<close>

record point =
  pt_x :: rat
  pt_y :: rat
  pt_speed :: rat
  pt_direction :: rat
  pt_width :: rat
  pt_pressure :: rat

record line =
  tool_name :: string
  tool_value :: int
  color_name :: string
  color_value :: int
  thickness_scale :: rat
  points :: "point list"

record rectangle =
  rect_x :: rat
  rect_y :: rat
  rect_w :: rat
  rect_h :: rat

record glyph_range =
  glyph_color_value :: int
  rectangles :: "rectangle list"

text \<open>A CRDT sequence item: \<open>item_value = None\<close> is Python's \<^verbatim>\<open>None\<close> (a deleted entry).\<close>

record 'a crdt_item =
  item_id :: string
  item_value :: "'a option"

text \<open>
  An item of the text sequence is rmscene's \<^verbatim>\<open>CrdtSequenceItem\<close>: its attributes are
  \<^verbatim>\<open>item_id\<close>, \<^verbatim>\<open>left_id\<close>, \<^verbatim>\<open>right_id\<close>, \<^verbatim>\<open>deleted_length\<close> and
  \<^verbatim>\<open>value\<close>, and it has no attribute \<^verbatim>\<open>text\<close>. The value is a string or, for a
  formatting code, an \<^verbatim>\<open>int\<close>.
\<close>

datatype text_value = TextStr string | FormatCode int

record text_item =
  ti_item_id :: string
  ti_value :: text_value

text \<open>
  \<open>text_items\<close> is what \<^verbatim>\<open>block.value.items.sequence_items()\<close> yields, in order.
\<close>

record root_text =
  block_id :: string
  text_items :: "text_item list"
  pos_x :: rat
  pos_y :: rat

datatype block =
    SceneLineItemBlock "line crdt_item"
  | RootTextBlock root_text
  | SceneGlyphItemBlock "glyph_range crdt_item"
  | PageInfoBlock
  | OtherBlock

subsection \<open>Bounds: \<^verbatim>\<open>get_limits_stroke\<close>, \<^verbatim>\<open>get_limits_highlight\<close>, \<^verbatim>\<open>get_limits\<close>\<close>

type_synonym limits = "rat option \<times> rat option \<times> rat option \<times> rat option"

text \<open>
  \<^verbatim>\<open>if lo is None or lo > v: lo = v\<close> and \<^verbatim>\<open>if hi is None or hi < v: hi = v\<close>,
  for a \<^verbatim>\<open>float\<close> \<open>v\<close>.
\<close>

definition lower :: "rat option \<Rightarrow> rat \<Rightarrow> rat option" where
  "lower lo v = (case lo of None \<Rightarrow> Some v | Some a \<Rightarrow> if a > v then Some v else Some a)"

definition raise :: "rat option \<Rightarrow> rat \<Rightarrow> rat option" where
  "raise hi v = (case hi of None \<Rightarrow> Some v | Some a \<Rightarrow> if a < v then Some v else Some a)"

text \<open>The loop of \<^verbatim>\<open>get_limits_stroke\<close> over the points, on the four running limits.\<close>

fun limits_points :: "point list \<Rightarrow> limits \<Rightarrow> limits" where
  "limits_points [] cur = cur"
| "limits_points (p # ps) (xmin, xmax, ymin, ymax) =
     limits_points ps
       (lower xmin (pt_x p), raise xmax (pt_x p), lower ymin (pt_y p), raise ymax (pt_y p))"

definition get_limits_stroke :: "line crdt_item \<Rightarrow> limits" where
  "get_limits_stroke item =
     (case item_value item of
        None \<Rightarrow> (None, None, None, None)
      | Some l \<Rightarrow> limits_points (points l) (None, None, None, None))"

text \<open>
  \<^verbatim>\<open>if item:\<close> tests a dataclass instance, which is true whenever it is not
  \<^verbatim>\<open>None\<close>. \<^verbatim>\<open>item.rectangles[0]\<close> raises IndexError on an empty sequence.
\<close>

definition get_limits_highlight :: "glyph_range crdt_item \<Rightarrow> py_error + limits" where
  "get_limits_highlight item =
     (case item_value item of
        None \<Rightarrow> Inr (None, None, None, None)
      | Some g \<Rightarrow>
          (case rectangles g of
             [] \<Rightarrow> Inl IndexError
           | rectangle # _ \<Rightarrow>
               Inr (Some (rect_x rectangle), Some (rect_x rectangle + rect_w rectangle),
                    Some (rect_y rectangle), Some (rect_y rectangle + rect_h rectangle))))"

text \<open>
  The comparisons of \<^verbatim>\<open>get_limits\<close> between a running limit and a block's limit:
  \<^verbatim>\<open>lo is None or lo > t\<close> takes \<open>t\<close> (which may itself be \<^verbatim>\<open>None\<close>) when
  \<open>lo\<close> is \<^verbatim>\<open>None\<close>, and raises TypeError when it has to order a number and
  \<^verbatim>\<open>None\<close>.
\<close>

definition lower_opt :: "rat option \<Rightarrow> rat option \<Rightarrow> py_error + rat option" where
  "lower_opt lo t =
     (case lo of
        None \<Rightarrow> Inr t
      | Some a \<Rightarrow> (case t of None \<Rightarrow> Inl TypeError
                   | Some v \<Rightarrow> Inr (if a > v then Some v else Some a)))"

definition raise_opt :: "rat option \<Rightarrow> rat option \<Rightarrow> py_error + rat option" where
  "raise_opt hi t =
     (case hi of
        None \<Rightarrow> Inr t
      | Some a \<Rightarrow> (case t of None \<Rightarrow> Inl TypeError
                   | Some v \<Rightarrow> Inr (if a < v then Some v else Some a)))"

definition merge_limits :: "limits \<Rightarrow> limits \<Rightarrow> py_error + limits" where
  "merge_limits cur tmp =
     (case cur of (xmin, xmax, ymin, ymax) \<Rightarrow>
       (case tmp of (xmin_tmp, xmax_tmp, ymin_tmp, ymax_tmp) \<Rightarrow>
          if xmin_tmp = None then Inr cur
          else
            (case lower_opt xmin xmin_tmp of Inl e \<Rightarrow> Inl e | Inr xmin' \<Rightarrow>
            (case raise_opt xmax xmax_tmp of Inl e \<Rightarrow> Inl e | Inr xmax' \<Rightarrow>
            (case lower_opt ymin ymin_tmp of Inl e \<Rightarrow> Inl e | Inr ymin' \<Rightarrow>
            (case raise_opt ymax ymax_tmp of Inl e \<Rightarrow> Inl e | Inr ymax' \<Rightarrow>
               Inr (xmin', xmax', ymin', ymax')))))))"

fun limits_blocks :: "block list \<Rightarrow> limits \<Rightarrow> py_error + limits" where
  "limits_blocks [] cur = Inr cur"
| "limits_blocks (SceneLineItemBlock item # bs) cur =
     (case merge_limits cur (get_limits_stroke item) of
        Inl e \<Rightarrow> Inl e
      | Inr cur' \<Rightarrow> limits_blocks bs cur')"
| "limits_blocks (SceneGlyphItemBlock item # bs) cur =
     (case get_limits_highlight item of
        Inl e \<Rightarrow> Inl e
      | Inr tmp \<Rightarrow>
          (case merge_limits cur tmp of
             Inl e \<Rightarrow> Inl e
           | Inr cur' \<Rightarrow> limits_blocks bs cur'))"
| "limits_blocks (_ # bs) cur = limits_blocks bs cur"

definition get_limits :: "block list \<Rightarrow> py_error + limits" where
  "get_limits blocks = limits_blocks blocks (None, None, None, None)"

subsection \<open>\<^verbatim>\<open>get_dimensions\<close>\<close>

definition SCREEN_WIDTH :: int where
  "SCREEN_WIDTH = 1404"

definition XPOS_SHIFT :: rat where
  "XPOS_SHIFT = of_int SCREEN_WIDTH / 2"

record svg_doc_info =
  height :: pynum
  width :: int
  xpos_delta :: rat
  ypos_delta :: int

text \<open>
  \<^verbatim>\<open>if ymin < 0\<close> orders \<open>ymin\<close> and \<open>0\<close>: TypeError when \<open>ymin\<close> is
  \<^verbatim>\<open>None\<close>. \<^verbatim>\<open>height += ymin\<close> then adds a \<^verbatim>\<open>float\<close> to the \<^verbatim>\<open>int\<close>
  that \<^verbatim>\<open>math.ceil\<close> returned. The \<^verbatim>\<open>debug\<close> argument only selects what is
  printed to standard output and is left out.
\<close>

definition get_dimensions :: "block list \<Rightarrow> py_error + svg_doc_info" where
  "get_dimensions blocks =
     (case get_limits blocks of
        Inl e \<Rightarrow> Inl e
      | Inr (xmin, xmax, ymin, ymax) \<Rightarrow>
          (let w = \<lceil>if xmin \<noteq> None \<and> xmax \<noteq> None then the xmax - the xmin else 0\<rceil>;
               h = \<lceil>if ymin \<noteq> None \<and> ymax \<noteq> None then the ymax - the ymin else 0\<rceil>;
               xd = max XPOS_SHIFT (of_int w / 2)
           in case ymin of
                None \<Rightarrow> Inl TypeError
              | Some ym \<Rightarrow>
                  Inr \<lparr>height = (if ym < 0 then PyFloat (of_int h + ym) else PyInt h),
                       width = w, xpos_delta = xd, ypos_delta = 0\<rparr>))"

subsection \<open>The text written: pieces, Python's \<^verbatim>\<open>str\<close> of integers and tuples\<close>

text \<open>
  One call of \<^verbatim>\<open>output.write\<close> appends one chunk: the list of the pieces of the
  (formatted) string literal written. \<open>Lit\<close> is literal text or an interpolated string,
  \<open>Str v\<close> is a number interpolated as \<^verbatim>\<open>{v}\<close>, \<open>Fix3 v\<close> is a number interpolated
  as \<^verbatim>\<open>{v:.3f}\<close>.
\<close>

datatype piece = Lit string | Str pynum | Fix3 rat

type_synonym chunk = "piece list"

definition digit :: "nat \<Rightarrow> char" where
  "digit n = ''0123456789'' ! n"

fun str_nat :: "nat \<Rightarrow> string" where
  "str_nat n =
     (if n < 10 then [digit n]
      else str_nat (n div 10) @ [digit (n mod 10)])"

declare str_nat.simps [simp del]

definition str_int :: "int \<Rightarrow> string" where
  "str_int i = (if i < 0 then CHR ''-'' # str_nat (nat (- i)) else str_nat (nat i))"

fun join_comma :: "string list \<Rightarrow> string" where
  "join_comma [] = []"
| "join_comma [s] = s"
| "join_comma (s # t # ss) = s @ '', '' @ join_comma (t # ss)"

text \<open>\<^verbatim>\<open>str(tuple(vs))\<close>: a one-element tuple prints with a trailing comma.\<close>

definition str_tuple :: "int list \<Rightarrow> string" where
  "str_tuple vs =
     (case vs of
        [v] \<Rightarrow> ''('' @ str_int v @ '',)''
      | _ \<Rightarrow> ''('' @ join_comma (map str_int vs) @ '')'')"

subsection \<open>What \<^verbatim>\<open>writing_tools\<close> provides\<close>

text \<open>
  \<^verbatim>\<open>writing_tools.py\<close> is not among the sources. What \<^verbatim>\<open>svg.py\<close> uses of it is a
  parameter of the model: the attributes and methods of a \<^verbatim>\<open>Pen\<close> that
  \<^verbatim>\<open>draw_stroke\<close> reads, \<^verbatim>\<open>Pen.create\<close> (which may raise), and the table
  \<^verbatim>\<open>remarkable_palette\<close>, a lookup that fails (\<open>LookupError\<close>) outside its keys.
  The methods take \<^verbatim>\<open>(speed, direction, width, pressure, last_width)\<close>.
\<close>

record pen =
  segment_length :: int
  stroke_linecap :: string
  stroke_linejoin :: string
  get_segment_color :: "rat \<Rightarrow> rat \<Rightarrow> rat \<Rightarrow> rat \<Rightarrow> rat \<Rightarrow> string"
  get_segment_width :: "rat \<Rightarrow> rat \<Rightarrow> rat \<Rightarrow> rat \<Rightarrow> rat \<Rightarrow> rat"
  get_segment_opacity :: "rat \<Rightarrow> rat \<Rightarrow> rat \<Rightarrow> rat \<Rightarrow> rat \<Rightarrow> pynum"

record tools =
  Pen_create :: "int \<Rightarrow> int \<Rightarrow> rat \<Rightarrow> py_error + pen"
  remarkable_palette :: "int \<Rightarrow> int list option"

subsection \<open>\<^verbatim>\<open>draw_highlight\<close>\<close>

text \<open>
  The \<^verbatim>\<open>print\<close> before the drawing reads \<^verbatim>\<open>item.rectangles[0]\<close> first, after the
  comment has been written; the exception leaves \<^verbatim>\<open>draw_highlight\<close> there.
\<close>

definition draw_highlight ::
  "tools \<Rightarrow> glyph_range crdt_item \<Rightarrow> svg_doc_info \<Rightarrow> chunk list \<Rightarrow> py_error + chunk list" where
  \<open>draw_highlight T item svg_doc_info output =
     (case item_value item of
        None \<Rightarrow> Inr output
      | Some g \<Rightarrow>
          (case rectangles g of
             [] \<Rightarrow> Inl IndexError
           | rectangle # _ \<Rightarrow>
               (case remarkable_palette T (glyph_color_value g) of
                  None \<Rightarrow> Inl LookupError
                | Some color_values \<Rightarrow>
                    (let color = ''rgb'' @ str_tuple color_values;
                         xpos = rect_x rectangle + xpos_delta svg_doc_info;
                         ypos = rect_y rectangle + of_int (ypos_delta svg_doc_info)
                     in Inr (output @
                          [[Lit ''        <!-- SceneGlyphItemBlock (highlighter) item_id: '',
                            Lit (item_id item), Lit '' -->\<newline>''],
                           [Lit ''        <rect x="'', Str (PyFloat xpos),
                            Lit ''" y="'', Str (PyFloat ypos),
                            Lit ''" width="'', Str (PyFloat (rect_w rectangle)),
                            Lit ''" height="'', Str (PyFloat (rect_h rectangle)),
                            Lit ''" style="fill:'', Lit color,
                            Lit '';fill-opacity:0.5"/>\<newline>'']])))))\<close>

subsection \<open>\<^verbatim>\<open>draw_stroke\<close>\<close>

text \<open>
  The variables that the loop over the points carries from one iteration to the next.
  \<open>segment_width\<close> is unbound (\<open>None\<close>) until a point opens a segment.
\<close>

record stroke_state =
  last_xpos :: rat
  last_ypos :: rat
  last_segment_width :: rat
  segment_width :: "rat option"
  written :: "chunk list"

text \<open>The five writes that close the running polyline and open the next one.\<close>

definition open_polyline :: "pen \<Rightarrow> string \<Rightarrow> point \<Rightarrow> rat \<Rightarrow> chunk list" where
  \<open>open_polyline pen filter_attr p last_w =
     (let segment_color = get_segment_color pen (pt_speed p) (pt_direction p) (pt_width p)
                            (pt_pressure p) last_w;
          segment_w = get_segment_width pen (pt_speed p) (pt_direction p) (pt_width p)
                            (pt_pressure p) last_w;
          segment_opacity = get_segment_opacity pen (pt_speed p) (pt_direction p) (pt_width p)
                            (pt_pressure p) last_w
      in [[Lit ''"/>\<newline>''],
          [Lit (''        <polyline '' @ filter_attr)],
          [Lit ''style="fill:none; stroke:'', Lit segment_color, Lit '' ;stroke-width:'',
           Fix3 segment_w, Lit '';opacity:'', Str segment_opacity, Lit ''" ''],
          [Lit ''stroke-linecap="'', Lit (stroke_linecap pen), Lit ''" stroke-linejoin="'',
           Lit (stroke_linejoin pen), Lit ''" ''],
          [Lit ''points="'']])\<close>

text \<open>
  One iteration of the loop, for the point \<open>p\<close> with index \<open>point_id\<close>.
  \<^verbatim>\<open>point_id % pen.segment_length\<close> raises ZeroDivisionError for a zero length;
  otherwise it is \<open>mod\<close> on \<^typ>\<open>int\<close> (both take the sign of the divisor).
\<close>

definition stroke_point ::
  "pen \<Rightarrow> string \<Rightarrow> svg_doc_info \<Rightarrow> nat \<Rightarrow> point \<Rightarrow> stroke_state \<Rightarrow> py_error + stroke_state" where
  \<open>stroke_point pen filter_attr svg_doc_info point_id p s =
     (let xpos = pt_x p + xpos_delta svg_doc_info;
          ypos = pt_y p + of_int (ypos_delta svg_doc_info)
      in if segment_length pen = 0 then Inl ZeroDivisionError
         else
           (let s1 = (if int point_id mod segment_length pen = 0
                      then s\<lparr>segment_width :=
                               Some (get_segment_width pen (pt_speed p) (pt_direction p)
                                       (pt_width p) (pt_pressure p) (last_segment_width s)),
                             written := written s @ open_polyline pen filter_attr p (last_segment_width s)\<rparr>
                      else s);
                s2 = (if last_xpos s1 \<noteq> - 1
                      then s1\<lparr>written := written s1 @
                               [[Fix3 (last_xpos s1), Lit '','', Fix3 (last_ypos s1), Lit '' '']]\<rparr>
                      else s1)
            in case segment_width s2 of
                 None \<Rightarrow> Inl UnboundLocalError
               | Some w \<Rightarrow>
                   Inr (s2\<lparr>last_xpos := xpos, last_ypos := ypos, last_segment_width := w,
                           written := written s2 @ [[Fix3 xpos, Lit '','', Fix3 ypos, Lit '' '']]\<rparr>)))\<close>

fun stroke_loop ::
  "pen \<Rightarrow> string \<Rightarrow> svg_doc_info \<Rightarrow> nat \<Rightarrow> point list \<Rightarrow> stroke_state \<Rightarrow> py_error + stroke_state" where
  "stroke_loop pen filter_attr svg_doc_info point_id [] s = Inr s"
| "stroke_loop pen filter_attr svg_doc_info point_id (p # ps) s =
     (case stroke_point pen filter_attr svg_doc_info point_id p s of
        Inl e \<Rightarrow> Inl e
      | Inr s' \<Rightarrow> stroke_loop pen filter_attr svg_doc_info (Suc point_id) ps s')"

definition stroke_filter :: "string \<Rightarrow> string" where
  \<open>stroke_filter name =
     (if name = ''MECHANICAL_PENCIL_2'' then '' filter="url(#mechPencilTexture)" ''
      else if name = ''PENCIL_2'' then '' filter="url(#pencilTexture)" ''
      else [])\<close>

definition draw_stroke ::
  "tools \<Rightarrow> line crdt_item \<Rightarrow> svg_doc_info \<Rightarrow> chunk list \<Rightarrow> py_error + chunk list" where
  \<open>draw_stroke T item svg_doc_info output =
     (let out1 = output @ [[Lit ''        <!-- SceneLineItemBlock item_id: '', Lit (item_id item),
                            Lit '' -->\<newline>'']]
      in case item_value item of
           None \<Rightarrow> Inr out1
         | Some l \<Rightarrow>
             (case Pen_create T (tool_value l) (color_value l) (thickness_scale l) of
                Inl e \<Rightarrow> Inl e
              | Inr pen \<Rightarrow>
                  (let out2 = out1 @
                         [[Lit ''        <!-- Stroke tool: '', Lit (tool_name l), Lit '' color: '',
                           Lit (color_name l), Lit '' ('', Str (PyInt (color_value l)),
                           Lit '') thickness_scale: '', Str (PyFloat (thickness_scale l)),
                           Lit '' -->\<newline>''],
                          [Lit ''<g>'']]
                   in case stroke_loop pen (stroke_filter (tool_name l)) svg_doc_info 0 (points l)
                             \<lparr>last_xpos = - 1, last_ypos = - 1, last_segment_width = 0,
                              segment_width = None, written = out2\<rparr> of
                        Inl e \<Rightarrow> Inl e
                      | Inr s \<Rightarrow> Inr (written s @ [[Lit ''" /></g>\<newline>'']]))))\<close>

subsection \<open>\<^verbatim>\<open>draw_text\<close>\<close>

text \<open>
  A character is a code point below 256. \<^verbatim>\<open>str.strip()\<close> removes leading and
  trailing white space: of these code points, 9 to 13, 28 to 32, 133 and 160.
\<close>

definition py_space :: "char \<Rightarrow> bool" where
  "py_space c = (of_char c \<in> set [9, 10, 11, 12, 13, 28, 29, 30, 31, 32, 133, 160 :: nat])"

definition strip :: "string \<Rightarrow> string" where
  "strip s = rev (dropWhile py_space (rev (dropWhile py_space s)))"

text \<open>The position that \<^verbatim>\<open>draw_text\<close> computes for a text item (\<^verbatim>\<open>xpos\<close>, \<^verbatim>\<open>ypos\<close>).\<close>

definition text_anchor :: "root_text \<Rightarrow> svg_doc_info \<Rightarrow> rat \<times> rat" where
  "text_anchor b svg_doc_info =
     (pos_x b + of_int (width svg_doc_info) / 2, pos_y b + num_val (height svg_doc_info) / 2)"

text \<open>
  The loop over the text items. After the comment, \<^verbatim>\<open>text_item.value.strip()\<close> raises
  AttributeError for an \<^verbatim>\<open>int\<close> value; for a string that is not blank, the formatted
  string of the \<^verbatim>\<open><text\<close> element reads \<^verbatim>\<open>text_item.text\<close>, which raises
  AttributeError before anything is written. Only a blank string lets the loop go on.
\<close>

fun text_loop ::
  "root_text \<Rightarrow> svg_doc_info \<Rightarrow> text_item list \<Rightarrow> chunk list \<Rightarrow> py_error + chunk list" where
  \<open>text_loop b svg_doc_info [] output = Inr output\<close>
| \<open>text_loop b svg_doc_info (text_item # rest) output =
     (let anchor = text_anchor b svg_doc_info;
          out1 = output @ [[Lit ''        <!-- TextItem item_id: '', Lit (ti_item_id text_item),
                            Lit '' -->\<newline>'']]
      in case ti_value text_item of
           FormatCode v \<Rightarrow> Inl AttributeError
         | TextStr s \<Rightarrow>
             (if strip s \<noteq> [] then Inl AttributeError
              else text_loop b svg_doc_info rest out1))\<close>

definition draw_text :: "root_text \<Rightarrow> svg_doc_info \<Rightarrow> chunk list \<Rightarrow> py_error + chunk list" where
  \<open>draw_text b svg_doc_info output =
     text_loop b svg_doc_info (text_items b)
       (output @
        [[Lit ''        <!-- RootTextBlock item_id: '', Lit (block_id b), Lit '' -->\<newline>''],
         [Lit ''        <style>\<newline>''],
         [Lit ''            .default {\<newline>''],
         [Lit ''                font: 50px serif\<newline>''],
         [Lit ''            }\<newline>''],
         [Lit ''        </style>\<newline>'']])\<close>

subsection \<open>\<^verbatim>\<open>blocks_to_svg\<close>\<close>

text \<open>\<^verbatim>\<open>SVG_HEADER.substitute(height=h, width=w)\<close>, as one chunk.\<close>

definition SVG_HEADER :: "pynum \<Rightarrow> int \<Rightarrow> chunk" where
  \<open>SVG_HEADER h w =
     [Lit (''\<newline>'' @
          ''<svg xmlns="http://www.w3.org/2000/svg" height="''),
      Str h,
      Lit (''" width="''),
      Str (PyInt w),
      Lit (''">\<newline>'' @
          ''    <script type="application/ecmascript"> <![CDATA[\<newline>'' @
          ''        var visiblePage = 'p1';\<newline>'' @
          ''        function goToPage(page) {\<newline>'' @
          ''            document.getElementById(visiblePage).setAttribute('style', 'display: none');\<newline>'' @
          ''            document.getElementById(page).setAttribute('style', 'display: inline');\<newline>'' @
          ''            visiblePage = page;\<newline>'' @
          ''        }\<newline>'' @
          ''    ]]>\<newline>'' @
          ''    </script>\<newline>'' @
          ''    <defs>\<newline>'' @
          ''        <filter x="-10%" y="-10%" width="120%" height="120%" filterUnits="objectBoundingBox" id="mechPencilTexture">\<newline>'' @
          ''            <feTurbulence type="fractalNoise" baseFrequency="0.5" numOctaves="5" stitchTiles="stitch" result="f1">\<newline>'' @
          ''            </feTurbulence>\<newline>'' @
          ''            <feColorMatrix type="matrix" values="0 0 0 0 0, 0 0 0 0 0, 0 0 0 0 0, 0 0 0 -1.5 1.5" result="f2">\<newline>'' @
          ''            </feColorMatrix>\<newline>'' @
          ''            <feComposite operator="in" in2="f2b" in="SourceGraphic" result="f3">\<newline>'' @
          ''            </feComposite>\<newline>'' @
          ''            <feTurbulence type="fractalNoise" baseFrequency="1.2" numOctaves="3" result="noise">\<newline>'' @
          ''            </feTurbulence>\<newline>'' @
          ''            <feDisplacementMap xChannelSelector="R" yChannelSelector="G" scale="2.5" in="f3" result="f4">\<newline>'' @
          ''            </feDisplacementMap>\<newline>'' @
          ''        </filter>\<newline>'' @
          ''        <filter x="-2000%" y="-2000%" width="5000%" height="5000%" filterUnits="objectBoundingBox" id="pencilTexture">\<newline>'' @
          ''            <feTurbulence type="fractalNoise" baseFrequency="0.5" numOctaves="10" stitchTiles="stitch" result="f1">\<newline>'' @
          ''            </feTurbulence>\<newline>'' @
          ''            <feColorMatrix type="matrix" values="0 0 0 0 0, 0 0 0 0 0, 0 0 0 0 0, 0 0 0 -1.9 1.7" result="f2">\<newline>'' @
          ''            </feColorMatrix>\<newline>'' @
          ''            <feComposite operator="in" in2="f2" in="SourceGraphic" result="f3">\<newline>'' @
          ''            </feComposite>\<newline>'' @
          ''            <feTurbulence type="fractalNoise" baseFrequency="1.2" numOctaves="3" result="noise">\<newline>'' @
          ''            </feTurbulence>\<newline>'' @
          ''            <feDisplacementMap xChannelSelector="R" yChannelSelector="G" scale="2" in="f3" result="f4">\<newline>'' @
          ''            </feDisplacementMap>\<newline>'' @
          ''        </filter>\<newline>'' @
          ''    </defs>\<newline>'')]\<close>

fun draw_blocks :: "tools \<Rightarrow> svg_doc_info \<Rightarrow> block list \<Rightarrow> chunk list \<Rightarrow> py_error + chunk list" where
  "draw_blocks T svg_doc_info [] output = Inr output"
| "draw_blocks T svg_doc_info (SceneLineItemBlock item # bs) output =
     (case draw_stroke T item svg_doc_info output of
        Inl e \<Rightarrow> Inl e
      | Inr output' \<Rightarrow> draw_blocks T svg_doc_info bs output')"
| "draw_blocks T svg_doc_info (RootTextBlock b # bs) output =
     (case draw_text b svg_doc_info output of
        Inl e \<Rightarrow> Inl e
      | Inr output' \<Rightarrow> draw_blocks T svg_doc_info bs output')"
| "draw_blocks T svg_doc_info (SceneGlyphItemBlock item # bs) output =
     (case draw_highlight T item svg_doc_info output of
        Inl e \<Rightarrow> Inl e
      | Inr output' \<Rightarrow> draw_blocks T svg_doc_info bs output')"
| "draw_blocks T svg_doc_info (_ # bs) output = draw_blocks T svg_doc_info bs output"

definition blocks_to_svg :: "tools \<Rightarrow> block list \<Rightarrow> chunk list \<Rightarrow> py_error + chunk list" where
  \<open>blocks_to_svg T blocks output =
     (case get_dimensions blocks of
        Inl e \<Rightarrow> Inl e
      | Inr svg_doc_info \<Rightarrow>
          (let out1 = output @
                 [SVG_HEADER (height svg_doc_info) (width svg_doc_info),
                  [Lit ''\<newline>''],
                  [Lit ''    <g id="p1" style="display:inline">\<newline>''],
                  [Lit ''        <filter id="blurMe"><feGaussianBlur in="SourceGraphic" stdDeviation="10" /></filter>\<newline>''],
                  [Lit ''        <line x1="'', Str (PyFloat (of_int (width svg_doc_info) / 2)),
                   Lit ''" y1="0" x2="'', Str (PyFloat (of_int (width svg_doc_info) / 2)),
                   Lit ''" y2="'', Str (height svg_doc_info),
                   Lit ''" stroke="red" stroke-width="1"/>\<newline>'']]
           in case draw_blocks T svg_doc_info blocks out1 of
                Inl e \<Rightarrow> Inl e
              | Inr out2 \<Rightarrow>
                  Inr (out2 @
                       [[Lit ''\<newline>''],
                        [Lit ''        <!-- clickable rect to flip pages -->\<newline>''],
                        [Lit ''    </g>\<newline>''],
                        [Lit ''</svg>\<newline>'']])))\<close>

subsection \<open>\<^verbatim>\<open>markdown.print_text\<close>\<close>

text \<open>
  The members of rmscene's \<^verbatim>\<open>ParagraphStyle\<close> that \<^verbatim>\<open>print_text\<close> names, and
  \<open>OTHER_STYLE v\<close> for any other member, by its value. A paragraph is kept as its style
  and the text \<^verbatim>\<open>str(p)\<close>. The library's part is a parameter:
  \<open>doc_contents\<close> is \<^verbatim>\<open>TextDocument.from_scene_item(block.value).contents\<close> and
  \<open>style_str\<close> is \<^verbatim>\<open>"%s" % style\<close>.
\<close>

datatype paragraph_style = BULLET | BULLET2 | BOLD | HEADING | PLAIN | OTHER_STYLE int

record md_paragraph =
  par_style :: paragraph_style
  par_str :: string

record text_lib =
  doc_contents :: "root_text \<Rightarrow> md_paragraph list"
  style_str :: "paragraph_style \<Rightarrow> string"

text \<open>
  The streams. \<open>out_file\<close> is the file that the command line opens for \<^verbatim>\<open>-o\<close>,
  \<open>stdout\<close> is standard output. The argument \<^verbatim>\<open>fout\<close> of \<^verbatim>\<open>print_text\<close> is one of
  the two (\<^verbatim>\<open>cli.open_output\<close> yields \<^verbatim>\<open>sys.stdout\<close> when no \<^verbatim>\<open>-o\<close> is given), and
  the output document is the stream that \<^verbatim>\<open>fout\<close> is. \<^verbatim>\<open>print(s, file=fout)\<close>
  appends \<open>s\<close> and a newline to it; \<^verbatim>\<open>print(s)\<close> appends them to standard output.
\<close>

datatype target = ToFile | ToStdout

record md_streams =
  out_file :: string
  stdout :: string

definition print_stdout :: "string \<Rightarrow> md_streams \<Rightarrow> md_streams" where
  "print_stdout s st = st\<lparr>stdout := stdout st @ s @ ''\<newline>''\<rparr>"

definition print_fout :: "target \<Rightarrow> string \<Rightarrow> md_streams \<Rightarrow> md_streams" where
  "print_fout fout s st =
     (case fout of
        ToFile \<Rightarrow> st\<lparr>out_file := out_file st @ s @ ''\<newline>''\<rparr>
      | ToStdout \<Rightarrow> print_stdout s st)"

definition document :: "target \<Rightarrow> md_streams \<Rightarrow> string" where
  "document fout st = (case fout of ToFile \<Rightarrow> out_file st | ToStdout \<Rightarrow> stdout st)"

definition print_paragraph :: "text_lib \<Rightarrow> target \<Rightarrow> md_paragraph \<Rightarrow> md_streams \<Rightarrow> md_streams" where
  "print_paragraph lib fout p st =
     (let style = par_style p; line = strip (par_str p)
      in if line \<noteq> [] then
           (if style = BULLET then print_fout fout (''* '' @ line @ ''\<newline>'') st
            else if style = BULLET2 then print_fout fout (''  * '' @ line @ ''\<newline>'') st
            else if style = BOLD then print_fout fout (''**'' @ line @ ''**\<newline>'') st
            else if style = HEADING then print_fout fout (''# '' @ line @ ''\<newline>'') st
            else if style = PLAIN then print_fout fout (line @ ''\<newline>'') st
            else print_stdout ((''[unknown format '' @ style_str lib style @ ''] '') @ line) st)
         else print_stdout ((''[blank line '' @ style_str lib style @ ''] '') @ line) st)"

fun print_paragraphs ::
  "text_lib \<Rightarrow> target \<Rightarrow> md_paragraph list \<Rightarrow> md_streams \<Rightarrow> md_streams" where
  "print_paragraphs lib fout [] st = st"
| "print_paragraphs lib fout (p # ps) st =
     print_paragraphs lib fout ps (print_paragraph lib fout p st)"

fun print_text :: "text_lib \<Rightarrow> block list \<Rightarrow> target \<Rightarrow> md_streams \<Rightarrow> md_streams" where
  "print_text lib [] fout st = st"
| "print_text lib (RootTextBlock b # bs) fout st =
     print_text lib bs fout
       (print_paragraphs lib fout (doc_contents lib b)
          (print_stdout ''processing text block'' st))"
| "print_text lib (_ # bs) fout st = print_text lib bs fout st"

subsection \<open>A concrete instance, for evaluation\<close>

text \<open>
  An instance of the parameters, used where a statement is evaluated on a concrete
  document: a pen that re-styles every two samples, and a palette of four colours.
\<close>

definition sample :: "rat \<Rightarrow> rat \<Rightarrow> point" where
  "sample a b = \<lparr>pt_x = a, pt_y = b, pt_speed = 0, pt_direction = 0, pt_width = 2, pt_pressure = 1\<rparr>"

definition ballpoint :: pen where
  "ballpoint =
     \<lparr>segment_length = 2, stroke_linecap = ''round'', stroke_linejoin = ''round'',
      get_segment_color = (\<lambda>speed direction w pressure last_w. ''black''),
      get_segment_width = (\<lambda>speed direction w pressure last_w. w),
      get_segment_opacity = (\<lambda>speed direction w pressure last_w. PyInt 1)\<rparr>"

definition example_tools :: tools where
  "example_tools =
     \<lparr>Pen_create = (\<lambda>pen_nr color_nr scale. if pen_nr = 15 then Inr ballpoint else Inl PenError),
      remarkable_palette = map_of [(0, [0, 0, 0]), (1, [125, 125, 125]), (2, [255, 255, 255]),
                                   (3, [251, 247, 25])]\<rparr>"

definition stroke_item :: "point list \<Rightarrow> line crdt_item" where
  "stroke_item ps =
     \<lparr>item_id = ''CrdtId(1, 20)'',
      item_value = Some \<lparr>tool_name = ''BALLPOINT_2'', tool_value = 15, color_name = ''BLACK'',
                         color_value = 0, thickness_scale = 2, points = ps\<rparr>\<rparr>"

definition stroke_of :: "point list \<Rightarrow> block" where
  "stroke_of ps = SceneLineItemBlock (stroke_item ps)"

definition example_info :: svg_doc_info where
  "example_info = \<lparr>height = PyInt 40, width = 100, xpos_delta = 702, ypos_delta = 0\<rparr>"

definition highlight_of :: "rectangle list \<Rightarrow> glyph_range crdt_item" where
  "highlight_of rs =
     \<lparr>item_id = ''CrdtId(1, 30)'',
      item_value = Some \<lparr>glyph_color_value = 3, rectangles = rs\<rparr>\<rparr>"

subsection \<open>Predicates used in the statements\<close>

text \<open>A block from which \<^verbatim>\<open>get_limits\<close> takes no bounds.\<close>

definition no_bounds :: "block \<Rightarrow> bool" where
  "no_bounds b =
     (case b of
        SceneLineItemBlock item \<Rightarrow>
          (case item_value item of None \<Rightarrow> True | Some l \<Rightarrow> points l = [])
      | SceneGlyphItemBlock item \<Rightarrow> item_value item = None
      | _ \<Rightarrow> True)"

definition all_or_none :: "limits \<Rightarrow> bool" where
  "all_or_none cur \<longleftrightarrow>
     cur = (None, None, None, None) \<or> (\<exists>a b c d. cur = (Some a, Some b, Some c, Some d))"

definition three_samples :: "line crdt_item" where
  "three_samples = stroke_item [sample 0 0, sample 10 0, sample 20 0]"


subsection \<open>Reading the written chunks\<close>

text \<open>
  What a statement below says about the written document is said of the chunks, read as
  follows. A vertex is a chunk \<^verbatim>\<open>{a:.3f},{b:.3f}\<close> followed by a space, as the loop of
  \<^verbatim>\<open>draw_stroke\<close> writes it; a rectangle is the \<^verbatim>\<open><rect\<close> chunk of
  \<^verbatim>\<open>draw_highlight\<close>. No other chunk of \<^verbatim>\<open>svg.py\<close> holds a coordinate of the input.
\<close>

datatype mark = Vertex rat rat | Rect rat rat rat rat

fun fix3_val :: "piece \<Rightarrow> rat option" where
  "fix3_val (Fix3 q) = Some q"
| "fix3_val _ = None"

fun float_val :: "piece \<Rightarrow> rat option" where
  "float_val (Str (PyFloat q)) = Some q"
| "float_val _ = None"

definition vertex_of :: "chunk \<Rightarrow> (rat \<times> rat) option" where
  "vertex_of c =
     (if length c = 4 \<and> c ! 1 = Lit '','' \<and> c ! 3 = Lit '' ''
      then (case (fix3_val (c ! 0), fix3_val (c ! 2)) of
              (Some a, Some b) \<Rightarrow> Some (a, b)
            | _ \<Rightarrow> None)
      else None)"

definition rect_of :: "chunk \<Rightarrow> mark option" where
  \<open>rect_of c =
     (if length c = 11 \<and> c ! 0 = Lit ''        <rect x="''
      then (case (float_val (c ! 1), float_val (c ! 3), float_val (c ! 5), float_val (c ! 7)) of
              (Some px, Some py, Some w, Some h) \<Rightarrow> Some (Rect px py w h)
            | _ \<Rightarrow> None)
      else None)\<close>

definition mark_of :: "chunk \<Rightarrow> mark option" where
  "mark_of c =
     (case vertex_of c of
        Some (a, b) \<Rightarrow> Some (Vertex a b)
      | None \<Rightarrow> rect_of c)"

definition marks :: "chunk list \<Rightarrow> mark list" where
  "marks out = List.map_filter mark_of out"

definition vertices :: "chunk list \<Rightarrow> (rat \<times> rat) list" where
  "vertices out = List.map_filter vertex_of out"

text \<open>
  The sub-paths: a chunk that starts a \<^verbatim>\<open><polyline\<close> element opens a new, empty sub-path;
  a vertex goes to the sub-path that is open.
\<close>

definition opens_polyline :: "chunk \<Rightarrow> bool" where
  "opens_polyline c = (case c of [Lit s] \<Rightarrow> take 18 s = ''        <polyline '' | _ \<Rightarrow> False)"

definition subpaths_step :: "(rat \<times> rat) list list \<Rightarrow> chunk \<Rightarrow> (rat \<times> rat) list list" where
  "subpaths_step acc c =
     (if opens_polyline c then acc @ [[]]
      else (case vertex_of c of
              Some v \<Rightarrow> (if acc = [] then [] else butlast acc @ [last acc @ [v]])
            | None \<Rightarrow> acc))"

definition subpaths :: "chunk list \<Rightarrow> (rat \<times> rat) list list" where
  "subpaths out = foldl subpaths_step [] out"

text \<open>The position at which \<^verbatim>\<open>draw_stroke\<close> writes a sample.\<close>

definition translate :: "svg_doc_info \<Rightarrow> point \<Rightarrow> rat \<times> rat" where
  "translate svg_doc_info p =
     (pt_x p + xpos_delta svg_doc_info, pt_y p + of_int (ypos_delta svg_doc_info))"

text \<open>
  What the loop of \<^verbatim>\<open>draw_stroke\<close> writes for the sample of index \<open>k\<close> of the points
  \<open>ps\<close>: the connecting vertex, which is the position of the sample before it, unless
  \<open>k = 0\<close> or that position has the x-coordinate \<open>-1\<close>; then the sample's own vertex.
\<close>

definition sample_vertices :: "svg_doc_info \<Rightarrow> point list \<Rightarrow> nat \<Rightarrow> (rat \<times> rat) list" where
  "sample_vertices svg_doc_info ps k =
     (if 0 < k \<and> fst (translate svg_doc_info (ps ! (k - 1))) \<noteq> - 1
      then [translate svg_doc_info (ps ! (k - 1))] else []) @
     [translate svg_doc_info (ps ! k)]"

text \<open>The same list, as the loop builds it: \<open>prev\<close> is the last position written.\<close>

fun joined :: "rat \<times> rat \<Rightarrow> (rat \<times> rat) list \<Rightarrow> (rat \<times> rat) list" where
  "joined prev [] = []"
| "joined prev (v # vs) = (if fst prev \<noteq> - 1 then [prev] else []) @ [v] @ joined v vs"

text \<open>The chunks that one iteration of the loop appends, from the state before it.\<close>

definition point_chunks ::
  "pen \<Rightarrow> string \<Rightarrow> svg_doc_info \<Rightarrow> nat \<Rightarrow> point \<Rightarrow> stroke_state \<Rightarrow> chunk list" where
  "point_chunks pen f info i p s =
     (if int i mod segment_length pen = 0 then open_polyline pen f p (last_segment_width s) else []) @
     (if last_xpos s \<noteq> - 1 then [[Fix3 (last_xpos s), Lit '','', Fix3 (last_ypos s), Lit '' '']] else []) @
     [[Fix3 (fst (translate info p)), Lit '','', Fix3 (snd (translate info p)), Lit '' '']]"

text \<open>
  The marks of one block, as sections 4.1 and 4.3 of the specification place them: the
  vertices of a stroke and the first rectangle of a highlight are moved by
  \<open>(xpos_delta, ypos_delta)\<close>. A text block, and a block of any other kind, has none.
\<close>

definition stroke_marks :: "svg_doc_info \<Rightarrow> point list \<Rightarrow> mark list" where
  "stroke_marks info ps =
     map (\<lambda>v. Vertex (fst v) (snd v)) (concat (map (sample_vertices info ps) [0..<length ps]))"

definition block_marks :: "svg_doc_info \<Rightarrow> block \<Rightarrow> mark list" where
  "block_marks info b =
     (case b of
        SceneLineItemBlock item \<Rightarrow>
          (case item_value item of None \<Rightarrow> [] | Some l \<Rightarrow> stroke_marks info (points l))
      | SceneGlyphItemBlock item \<Rightarrow>
          (case item_value item of
             None \<Rightarrow> []
           | Some g \<Rightarrow>
               (case rectangles g of
                  [] \<Rightarrow> []
                | r # _ \<Rightarrow> [Rect (rect_x r + xpos_delta info) (rect_y r + of_int (ypos_delta info))
                               (rect_w r) (rect_h r)]))
      | _ \<Rightarrow> [])"

text \<open>The state in which \<^verbatim>\<open>draw_stroke\<close> enters the loop, for a stroke whose Item is present.\<close>

definition stroke_start :: "line crdt_item \<Rightarrow> line \<Rightarrow> chunk list \<Rightarrow> stroke_state" where
  "stroke_start item l output =
     \<lparr>last_xpos = - 1, last_ypos = - 1, last_segment_width = 0, segment_width = None,
      written = output @
        [[Lit ''        <!-- SceneLineItemBlock item_id: '', Lit (item_id item),
          Lit '' -->\<newline>''],
         [Lit ''        <!-- Stroke tool: '', Lit (tool_name l), Lit '' color: '',
          Lit (color_name l), Lit '' ('', Str (PyInt (color_value l)),
          Lit '') thickness_scale: '', Str (PyFloat (thickness_scale l)),
          Lit '' -->\<newline>''],
         [Lit ''<g>'']]\<rparr>"


text \<open>
  The sub-paths of a stroke, as the specification counts them: the pieces \<open>pv 0\<close>, ...,
  \<open>pv (n - 1)\<close> (what is written for each sample) in consecutive groups of \<open>L\<close>
  samples; group \<open>j\<close> holds the samples \<open>j * L\<close> to \<open>min n (j * L + L) - 1\<close>.
\<close>

definition grouped :: "nat \<Rightarrow> (nat \<Rightarrow> 'a list) \<Rightarrow> nat \<Rightarrow> 'a list list" where
  "grouped L pv n =
     map (\<lambda>j. concat (map pv [j * L..<min n (j * L + L)])) [0..<(n + L - 1) div L]"


text \<open>The styles that \<^verbatim>\<open>print_text\<close> names.\<close>

definition recognized :: "paragraph_style \<Rightarrow> bool" where
  "recognized style = (style = HEADING \<or> style = BOLD \<or> style = PLAIN \<or> style = BULLET \<or> style = BULLET2)"

text \<open>An instance of the text library, and a text block of one item.\<close>

definition example_lib :: text_lib where
  "example_lib =
     \<lparr>doc_contents =
        (\<lambda>b. concat (map (\<lambda>text_item. case ti_value text_item of
                                          TextStr s \<Rightarrow> [\<lparr>par_style = OTHER_STYLE 0, par_str = s\<rparr>]
                                        | FormatCode v \<Rightarrow> [])
                           (text_items b))),
      style_str = (\<lambda>style. case style of
                      BULLET \<Rightarrow> ''ParagraphStyle.BULLET'' | BULLET2 \<Rightarrow> ''ParagraphStyle.BULLET2''
                    | BOLD \<Rightarrow> ''ParagraphStyle.BOLD'' | HEADING \<Rightarrow> ''ParagraphStyle.HEADING''
                    | PLAIN \<Rightarrow> ''ParagraphStyle.PLAIN'' | OTHER_STYLE v \<Rightarrow> ''ParagraphStyle.BASIC'')\<rparr>"

definition note_block :: "string \<Rightarrow> block" where
  "note_block s =
     RootTextBlock \<lparr>block_id = ''CrdtId(0, 0)'',
                    text_items = [\<lparr>ti_item_id = ''CrdtId(1, 16)'', ti_value = TextStr s\<rparr>],
                    pos_x = - 300, pos_y = 50\<rparr>"

subsection \<open>The inputs on which the renderer returns\<close>

text \<open>
  A block that the drawing pass gets through: a stroke whose pen \<^verbatim>\<open>Pen.create\<close> returns,
  with a segment length other than 0 if the stroke has a point; a highlight with a first
  rectangle and a colour of the palette; a text block whose items are all blank strings;
  a block of any other kind; a stroke or highlight whose Item is absent.
\<close>

definition blank_item :: "text_item \<Rightarrow> bool" where
  "blank_item text_item =
     (case ti_value text_item of TextStr s \<Rightarrow> strip s = [] | FormatCode v \<Rightarrow> False)"

definition drawable :: "tools \<Rightarrow> block \<Rightarrow> bool" where
  "drawable T b =
     (case b of
        SceneLineItemBlock item \<Rightarrow>
          (case item_value item of
             None \<Rightarrow> True
           | Some l \<Rightarrow>
               (case Pen_create T (tool_value l) (color_value l) (thickness_scale l) of
                  Inl e \<Rightarrow> False
                | Inr pen \<Rightarrow> segment_length pen \<noteq> 0 \<or> points l = []))
      | SceneGlyphItemBlock item \<Rightarrow>
          (case item_value item of
             None \<Rightarrow> True
           | Some g \<Rightarrow> rectangles g \<noteq> [] \<and> remarkable_palette T (glyph_color_value g) \<noteq> None)
      | RootTextBlock b \<Rightarrow> list_all blank_item (text_items b)
      | _ \<Rightarrow> True)"

text \<open>The y-coordinates of the input: of the samples and of the first rectangles.\<close>

definition input_ys :: "block \<Rightarrow> rat set" where
  "input_ys b =
     (case b of
        SceneLineItemBlock item \<Rightarrow>
          (case item_value item of None \<Rightarrow> {} | Some l \<Rightarrow> pt_y ` set (points l))
      | SceneGlyphItemBlock item \<Rightarrow>
          (case item_value item of
             None \<Rightarrow> {}
           | Some g \<Rightarrow> (case rectangles g of [] \<Rightarrow> {} | r # _ \<Rightarrow> {rect_y r}))
      | _ \<Rightarrow> {})"

fun mark_y :: "mark \<Rightarrow> rat" where
  "mark_y (Vertex a b) = b"
| "mark_y (Rect a b w h) = b"

text \<open>Bounds that are known: the four limits are numbers.\<close>

definition known :: "limits \<Rightarrow> bool" where
  "known cur \<longleftrightarrow> (\<exists>a b c d. cur = (Some a, Some b, Some c, Some d))"


definition left_edge_doc :: "block list" where
  "left_edge_doc = [stroke_of [sample (- 702) 3, sample 10 4]]"

definition above_page_doc :: "block list" where
  "above_page_doc = [stroke_of [sample 0 (- 10), sample 5 5]]"

definition far_left_doc :: "block list" where
  "far_left_doc =
     [stroke_of [sample 0 0, sample 100 40],
      SceneGlyphItemBlock (highlight_of [\<lparr>rect_x = - 800, rect_y = 20, rect_w = 5, rect_h = 2\<rparr>])]"

section \<open>The bounds calculator\<close>

subsection \<open>The four limits are known together\<close>

lemma limits_points_some:
  "\<exists>a b c d. limits_points ps (Some xa, Some xb, Some ya, Some yb) = (Some a, Some b, Some c, Some d)"
  by (induction ps arbitrary: xa xb ya yb) (auto simp: lower_def raise_def)

lemma limits_points_all_or_none: "all_or_none (limits_points ps (None, None, None, None))"
proof (cases ps)
  case Nil
  then show ?thesis by (simp add: all_or_none_def)
next
  case (Cons p qs)
  then show ?thesis
    using limits_points_some [of qs "pt_x p" "pt_x p" "pt_y p" "pt_y p"]
    by (auto simp: all_or_none_def lower_def raise_def)
qed

lemma get_limits_stroke_all_or_none: "all_or_none (get_limits_stroke item)"
  using limits_points_all_or_none
  by (auto simp: get_limits_stroke_def all_or_none_def split: option.splits)

lemma get_limits_highlight_all_or_none:
  "get_limits_highlight item = Inr tmp \<Longrightarrow> all_or_none tmp"
  by (auto simp: get_limits_highlight_def all_or_none_def split: option.splits list.splits)

lemma merge_limits_all_or_none:
  "all_or_none cur \<Longrightarrow> all_or_none tmp \<Longrightarrow>
     \<exists>cur'. merge_limits cur tmp = Inr cur' \<and> all_or_none cur'"
  by (auto simp: all_or_none_def merge_limits_def lower_opt_def raise_opt_def)

lemma limits_blocks_all_or_none:
  "all_or_none cur \<Longrightarrow> limits_blocks bs cur = Inr cur' \<Longrightarrow> all_or_none cur'"
proof (induction bs cur rule: limits_blocks.induct)
  case (1 cur)
  then show ?case by simp
next
  case (2 item bs cur)
  from merge_limits_all_or_none [OF "2.prems"(1) get_limits_stroke_all_or_none [of item]]
  obtain c where c: "merge_limits cur (get_limits_stroke item) = Inr c" "all_or_none c" by blast
  with 2 show ?case by simp
next
  case (3 item bs cur)
  from "3.prems"(2) obtain tmp where t: "get_limits_highlight item = Inr tmp"
    by (auto split: sum.splits)
  from merge_limits_all_or_none [OF "3.prems"(1) get_limits_highlight_all_or_none [OF t]]
  obtain c where c: "merge_limits cur tmp = Inr c" "all_or_none c" by blast
  with 3 t show ?case by simp
qed simp_all

lemma get_limits_all_or_none: "get_limits blocks = Inr cur \<Longrightarrow> all_or_none cur"
  unfolding get_limits_def
  by (rule limits_blocks_all_or_none [of "(None, None, None, None)"]) (simp_all add: all_or_none_def)

lemma get_dimensions_limits:
  assumes "get_dimensions blocks = Inr info"
  obtains xmin xmax ymin ymax where
    "get_limits blocks = Inr (Some xmin, Some xmax, Some ymin, Some ymax)"
proof -
  from assms obtain cur where cur: "get_limits blocks = Inr cur"
    by (auto simp: get_dimensions_def split: sum.splits)
  have "cur \<noteq> (None, None, None, None)"
    using assms cur by (auto simp: get_dimensions_def)
  with get_limits_all_or_none [OF cur] cur that show thesis
    by (auto simp: all_or_none_def)
qed

lemma get_dimensions_known:
  "get_limits blocks = Inr (Some xmin, Some xmax, Some ymin, Some ymax) \<Longrightarrow>
   get_dimensions blocks =
     Inr \<lparr>height = (if ymin < 0 then PyFloat (of_int \<lceil>ymax - ymin\<rceil> + ymin)
                    else PyInt \<lceil>ymax - ymin\<rceil>),
          width = \<lceil>xmax - xmin\<rceil>,
          xpos_delta = max XPOS_SHIFT (of_int \<lceil>xmax - xmin\<rceil> / 2),
          ypos_delta = 0\<rparr>"
  by (simp add: get_dimensions_def Let_def)

lemma merge_limits_none: "merge_limits cur (None, None, None, None) = Inr cur"
  by (simp add: merge_limits_def split: prod.splits)

lemma limits_blocks_no_bounds:
  "list_all no_bounds bs \<Longrightarrow> limits_blocks bs cur = Inr cur"
  by (induction bs cur rule: limits_blocks.induct)
     (auto simp: no_bounds_def merge_limits_none get_limits_stroke_def get_limits_highlight_def
           split: option.splits)

lemma example_limits:
  "get_limits [stroke_of [sample 0 (- 10), sample 5 5]] = Inr (Some 0, Some 5, Some (- 10), Some 5)"
  by (simp add: get_limits_def stroke_of_def stroke_item_def sample_def get_limits_stroke_def merge_limits_def
        lower_def raise_def lower_opt_def raise_opt_def)

lemma example_dimensions:
  "get_dimensions [stroke_of [sample 0 (- 10), sample 5 5]] =
     Inr \<lparr>height = PyFloat 5, width = 5, xpos_delta = 702, ypos_delta = 0\<rparr>"
  by (simp add: get_dimensions_def example_limits XPOS_SHIFT_def SCREEN_WIDTH_def)

subsection \<open>A page without bounds\<close>

text \<open>
  Claim C1. The claim: for a block sequence in which no drawable block yields bounds (a
  blank page, or only strokes and highlights whose Item is absent),
  \<^verbatim>\<open>get_dimensions\<close> returns width 0 and height 0 and \<^verbatim>\<open>blocks_to_svg\<close> writes an
  empty document without raising. What the code does on every such sequence:
  \<^verbatim>\<open>get_limits\<close> returns four \<^verbatim>\<open>None\<close>, the width and height are computed under the
  guard \<^verbatim>\<open>is not None\<close>, and then the unguarded comparison \<^verbatim>\<open>ymin < 0\<close> raises
  TypeError, in \<^verbatim>\<open>get_dimensions\<close> and so in \<^verbatim>\<open>blocks_to_svg\<close>, before anything is
  written.
\<close>

theorem blank_page_raises:
  assumes "list_all no_bounds blocks"
  shows "get_limits blocks = Inr (None, None, None, None) \<and>
         get_dimensions blocks = Inl TypeError \<and>
         blocks_to_svg T blocks output = Inl TypeError"
  using limits_blocks_no_bounds [OF assms, of "(None, None, None, None)"]
  by (simp add: get_limits_def get_dimensions_def blocks_to_svg_def)

theorem blank_page_raises_witness:
  "list_all no_bounds
     [SceneLineItemBlock \<lparr>item_id = ''CrdtId(0, 11)'', item_value = None\<rparr>,
      SceneGlyphItemBlock \<lparr>item_id = ''CrdtId(0, 12)'', item_value = None\<rparr>] \<and>
   get_dimensions
     [SceneLineItemBlock \<lparr>item_id = ''CrdtId(0, 11)'', item_value = None\<rparr>,
      SceneGlyphItemBlock \<lparr>item_id = ''CrdtId(0, 12)'', item_value = None\<rparr>] = Inl TypeError \<and>
   get_dimensions [] = Inl TypeError \<and>
   blocks_to_svg example_tools [] [] = Inl TypeError"
  using blank_page_raises
          [of "[SceneLineItemBlock \<lparr>item_id = ''CrdtId(0, 11)'', item_value = None\<rparr>,
                SceneGlyphItemBlock \<lparr>item_id = ''CrdtId(0, 12)'', item_value = None\<rparr>]"
              example_tools "[]"]
        blank_page_raises [of "[]" example_tools "[]"]
  by (simp add: no_bounds_def)

section \<open>Highlights\<close>

lemma str_tuple_yellow: "str_tuple [251, 247, 25] = ''(251, 247, 25)''"
  by (simp add: str_tuple_def str_int_def str_nat.simps digit_def)


lemma limits_blocks_empty_rectangles:
  assumes "item_value item = Some g" "rectangles g = []"
  shows "all_or_none cur \<Longrightarrow> SceneGlyphItemBlock item \<in> set bs \<Longrightarrow>
         limits_blocks bs cur = Inl IndexError"
proof (induction bs cur rule: limits_blocks.induct)
  case (1 cur)
  then show ?case by simp
next
  case (2 it bs cur)
  from merge_limits_all_or_none [OF "2.prems"(1) get_limits_stroke_all_or_none [of it]]
  obtain c where c: "merge_limits cur (get_limits_stroke it) = Inr c" "all_or_none c" by blast
  with 2 show ?case by simp
next
  case (3 it bs cur)
  show ?case
  proof (cases "get_limits_highlight it")
    case (Inl e)
    then have "e = IndexError"
      by (auto simp: get_limits_highlight_def split: option.splits list.splits)
    with Inl show ?thesis by simp
  next
    case (Inr tmp)
    with assms have ne: "it \<noteq> item"
      by (auto simp: get_limits_highlight_def)
    from merge_limits_all_or_none [OF "3.prems"(1) get_limits_highlight_all_or_none [OF Inr]]
    obtain c where c: "merge_limits cur tmp = Inr c" "all_or_none c" by blast
    with 3 Inr ne show ?thesis by simp
  qed
qed simp_all

subsection \<open>A highlight without rectangles\<close>

text \<open>
  Claim C10. For a highlight block whose Item is present and whose sequence of rectangles
  is empty, \<^verbatim>\<open>get_limits_highlight\<close> and \<^verbatim>\<open>draw_highlight\<close> both raise IndexError at
  \<^verbatim>\<open>item.rectangles[0]\<close>, and so do \<^verbatim>\<open>get_dimensions\<close> and
  \<^verbatim>\<open>blocks_to_svg\<close> for every block sequence that holds such a block: the renderer
  returns only when every present highlight Item has a rectangle.
\<close>

theorem empty_rectangles_raise:
  assumes "item_value item = Some g" "rectangles g = []"
  shows "get_limits_highlight item = Inl IndexError \<and>
         draw_highlight T item info output = Inl IndexError \<and>
         (\<forall>blocks. SceneGlyphItemBlock item \<in> set blocks \<longrightarrow>
            get_dimensions blocks = Inl IndexError \<and>
            blocks_to_svg T blocks output = Inl IndexError)"
proof -
  have "get_limits blocks = Inl IndexError" if "SceneGlyphItemBlock item \<in> set blocks" for blocks
    unfolding get_limits_def
    using limits_blocks_empty_rectangles [OF assms _ that, of "(None, None, None, None)"]
    by (simp add: all_or_none_def)
  then show ?thesis
    using assms
    by (simp add: get_limits_highlight_def draw_highlight_def get_dimensions_def blocks_to_svg_def)
qed

theorem empty_rectangles_raise_witness:
  "item_value (highlight_of []) = Some \<lparr>glyph_color_value = 3, rectangles = []\<rparr> \<and>
   get_limits_highlight (highlight_of []) = Inl IndexError \<and>
   draw_highlight example_tools (highlight_of []) example_info [] = Inl IndexError \<and>
   blocks_to_svg example_tools
     [stroke_of [sample 0 0, sample 5 5], SceneGlyphItemBlock (highlight_of [])] [] = Inl IndexError"
  using empty_rectangles_raise
          [of "highlight_of []" "\<lparr>glyph_color_value = 3, rectangles = []\<rparr>" example_tools
              example_info "[]"]
  by (simp add: highlight_of_def)

subsection \<open>The rectangle of a highlight\<close>

text \<open>
  Claim C6. The claim: every highlight block with a present Item yields exactly one filled
  rectangle, taken from the Item's first rectangle. The code reads
  \<^verbatim>\<open>item.rectangles[0]\<close> without a guard, so a present Item without rectangles raises
  IndexError and nothing is drawn. Amended: for a
  present Item that has a first rectangle \<open>r\<close> and whose colour index the palette
  defines, \<^verbatim>\<open>draw_highlight\<close> appends its comment and one \<^verbatim>\<open><rect\<close> element at
  \<open>(rect_x r + xpos_delta, rect_y r + ypos_delta)\<close> of width \<open>rect_w r\<close> and height
  \<open>rect_h r\<close>, filled with the palette's colour at opacity 0.5. The rectangle
  (10, 20, 5, 2) with the offsets (702, 0) is written at (712, 20), 5 by 2.
\<close>

theorem highlight_without_rectangle:
  "item_value (highlight_of []) \<noteq> None \<and>
   draw_highlight example_tools (highlight_of []) example_info [] = Inl IndexError"
  by (simp add: highlight_of_def draw_highlight_def)

theorem draw_highlight_rectangle:
  assumes "item_value item = Some g" "rectangles g = r # rs"
    and "remarkable_palette T (glyph_color_value g) = Some color_values"
  shows \<open>draw_highlight T item info output =
     Inr (output @
       [[Lit ''        <!-- SceneGlyphItemBlock (highlighter) item_id: '', Lit (item_id item),
         Lit '' -->\<newline>''],
        [Lit ''        <rect x="'', Str (PyFloat (rect_x r + xpos_delta info)),
         Lit ''" y="'', Str (PyFloat (rect_y r + of_int (ypos_delta info))),
         Lit ''" width="'', Str (PyFloat (rect_w r)),
         Lit ''" height="'', Str (PyFloat (rect_h r)),
         Lit ''" style="fill:'', Lit (''rgb'' @ str_tuple color_values),
         Lit '';fill-opacity:0.5"/>\<newline>'']])\<close>
  using assms by (simp add: draw_highlight_def)

theorem draw_highlight_rectangle_witness:
  \<open>draw_highlight example_tools
     (highlight_of [\<lparr>rect_x = 10, rect_y = 20, rect_w = 5, rect_h = 2\<rparr>])
     \<lparr>height = PyInt 2, width = 5, xpos_delta = 702, ypos_delta = 0\<rparr> [] =
     Inr [[Lit ''        <!-- SceneGlyphItemBlock (highlighter) item_id: '', Lit ''CrdtId(1, 30)'',
           Lit '' -->\<newline>''],
          [Lit ''        <rect x="'', Str (PyFloat 712),
           Lit ''" y="'', Str (PyFloat 20),
           Lit ''" width="'', Str (PyFloat 5),
           Lit ''" height="'', Str (PyFloat 2),
           Lit ''" style="fill:'', Lit ''rgb(251, 247, 25)'',
           Lit '';fill-opacity:0.5"/>\<newline>'']]\<close>
  using draw_highlight_rectangle
          [of "highlight_of [\<lparr>rect_x = 10, rect_y = 20, rect_w = 5, rect_h = 2\<rparr>]"
              "\<lparr>glyph_color_value = 3, rectangles = [\<lparr>rect_x = 10, rect_y = 20, rect_w = 5, rect_h = 2\<rparr>]\<rparr>"
              "\<lparr>rect_x = 10, rect_y = 20, rect_w = 5, rect_h = 2\<rparr>" "[]" example_tools
              "[251, 247, 25]" "\<lparr>height = PyInt 2, width = 5, xpos_delta = 702, ypos_delta = 0\<rparr>" "[]"]
  by (simp add: highlight_of_def example_tools_def str_tuple_yellow)


section \<open>Strokes\<close>

subsection \<open>One iteration, and the loop\<close>

lemma stroke_point_Inr:
  assumes "stroke_point pen f info i p s = Inr s'"
  shows "written s' = written s @ point_chunks pen f info i p s"
    and "last_xpos s' = fst (translate info p)"
    and "last_ypos s' = snd (translate info p)"
    and "segment_width s' \<noteq> None"
    and "segment_length pen \<noteq> 0"
  using assms
  by (auto simp: stroke_point_def point_chunks_def translate_def Let_def
           split: if_splits option.splits)

lemma stroke_point_succeeds:
  assumes "segment_length pen \<noteq> 0" "int i mod segment_length pen = 0 \<or> segment_width s \<noteq> None"
  shows "\<exists>s'. stroke_point pen f info i p s = Inr s'"
  using assms
  by (auto simp: stroke_point_def Let_def split: if_splits option.splits)

lemma stroke_loop_succeeds:
  "segment_length pen \<noteq> 0 \<Longrightarrow>
   ps = [] \<or> int i mod segment_length pen = 0 \<or> segment_width s \<noteq> None \<Longrightarrow>
   \<exists>s'. stroke_loop pen f info i ps s = Inr s'"
proof (induction ps arbitrary: i s)
  case Nil
  then show ?case by simp
next
  case (Cons p ps)
  then obtain s1 where s1: "stroke_point pen f info i p s = Inr s1"
    using stroke_point_succeeds [of pen i s f info p] by auto
  from stroke_point_Inr(4) [OF s1] Cons.IH [of "Suc i" s1] Cons.prems(1) s1 show ?case
    by auto
qed

subsection \<open>The vertices of a stroke\<close>

lemma vertex_of_vertex [simp]: "vertex_of [Fix3 a, Lit '','', Fix3 b, Lit '' ''] = Some (a, b)"
  by (simp add: vertex_of_def)

lemma vertices_append [simp]: "vertices (xs @ ys) = vertices xs @ vertices ys"
  by (simp add: vertices_def map_filter_def)

lemma vertices_Nil [simp]: "vertices [] = []"
  by (simp add: vertices_def map_filter_def)

lemma vertices_Cons:
  "vertices (c # cs) = (case vertex_of c of None \<Rightarrow> [] | Some v \<Rightarrow> [v]) @ vertices cs"
  by (simp add: vertices_def map_filter_def split: option.splits)

lemma vertices_open_polyline [simp]: "vertices (open_polyline pen f p w) = []"
  by (simp add: open_polyline_def Let_def vertices_Cons vertex_of_def)

lemma vertices_point_chunks:
  "vertices (point_chunks pen f info i p s) =
     (if last_xpos s \<noteq> - 1 then [(last_xpos s, last_ypos s)] else []) @ [translate info p]"
  by (simp add: point_chunks_def vertices_Cons)

lemma stroke_loop_vertices:
  "stroke_loop pen f info i ps s = Inr s' \<Longrightarrow>
   vertices (written s') =
     vertices (written s) @ joined (last_xpos s, last_ypos s) (map (translate info) ps)"
proof (induction ps arbitrary: i s)
  case Nil
  then show ?case by simp
next
  case (Cons p ps)
  from Cons.prems obtain s1 where
    s1: "stroke_point pen f info i p s = Inr s1"
    and rest: "stroke_loop pen f info (Suc i) ps s1 = Inr s'"
    by (auto split: sum.splits)
  from stroke_point_Inr [OF s1] Cons.IH [OF rest] show ?case
    by (simp add: vertices_point_chunks)
qed

lemma joined_index:
  "joined prev vs =
     concat (map (\<lambda>k. (if fst (if k = 0 then prev else vs ! (k - 1)) \<noteq> - 1
                        then [if k = 0 then prev else vs ! (k - 1)] else []) @ [vs ! k])
                 [0..<length vs])"
proof (induction vs arbitrary: prev)
  case Nil
  then show ?case by simp
next
  case (Cons v vs)
  have "concat (map (\<lambda>k. (if fst (if k = 0 then prev else (v # vs) ! (k - 1)) \<noteq> - 1
                        then [if k = 0 then prev else (v # vs) ! (k - 1)] else []) @ [(v # vs) ! k])
                 [0..<length (v # vs)]) =
        ((if fst prev \<noteq> - 1 then [prev] else []) @ [v]) @
        concat (map (\<lambda>k. (if fst (if k = 0 then v else vs ! (k - 1)) \<noteq> - 1
                        then [if k = 0 then v else vs ! (k - 1)] else []) @ [vs ! k])
                 [0..<length vs])"
    unfolding length_Cons map_upt_Suc
    by (auto intro!: arg_cong [where f = concat] simp: nth_Cons')
  with Cons.IH [of v] show ?case by simp
qed

lemma joined_sample_vertices:
  "joined (- 1, b) (map (translate info) ps) =
     concat (map (sample_vertices info ps) [0..<length ps])"
  unfolding joined_index
  by (auto intro!: arg_cong [where f = concat] simp: sample_vertices_def)

lemma draw_stroke_present:
  assumes "item_value item = Some l"
  shows "draw_stroke T item info output =
     (case Pen_create T (tool_value l) (color_value l) (thickness_scale l) of
        Inl e \<Rightarrow> Inl e
      | Inr pen \<Rightarrow>
          (case stroke_loop pen (stroke_filter (tool_name l)) info 0 (points l)
                  (stroke_start item l output) of
             Inl e \<Rightarrow> Inl e
           | Inr s \<Rightarrow> Inr (written s @ [[Lit ''\" /></g>\<newline>'']])))"
  using assms by (simp add: draw_stroke_def stroke_start_def Let_def split: sum.splits)

lemma vertices_stroke_start [simp]: "vertices (written (stroke_start item l output)) = vertices output"
  by (simp add: stroke_start_def vertices_Cons vertex_of_def)

lemma draw_stroke_vertices:
  assumes "draw_stroke T item info output = Inr output'" "item_value item = Some l"
  shows "vertices output' =
     vertices output @ concat (map (sample_vertices info (points l)) [0..<length (points l)])"
proof -
  from assms obtain pen s where
    loop: "stroke_loop pen (stroke_filter (tool_name l)) info 0 (points l)
             (stroke_start item l output) = Inr s"
    and out: "output' = written s @ [[Lit ''\" /></g>\<newline>'']]"
    by (auto simp: draw_stroke_present split: sum.splits)
  have "last_xpos (stroke_start item l output) = - 1"
    by (simp add: stroke_start_def)
  with stroke_loop_vertices [OF loop] out show ?thesis
    by (simp add: joined_sample_vertices vertices_Cons vertex_of_def)
qed


lemma draw_stroke_returns:
  assumes "item_value item = Some l"
    and "Pen_create T (tool_value l) (color_value l) (thickness_scale l) = Inr pen"
    and "segment_length pen \<noteq> 0 \<or> points l = []"
  shows "\<exists>out'. draw_stroke T item info out = Inr out'"
proof -
  have "\<exists>s. stroke_loop pen (stroke_filter (tool_name l)) info 0 (points l)
              (stroke_start item l out) = Inr s"
  proof (cases "points l = []")
    case True
    then show ?thesis by simp
  next
    case False
    with assms(3) have "segment_length pen \<noteq> 0" by simp
    then show ?thesis by (rule stroke_loop_succeeds) simp
  qed
  with assms(1,2) show ?thesis
    by (auto simp: draw_stroke_present)
qed

lemmas stroke_eval =
  draw_stroke_def stroke_item_def example_tools_def ballpoint_def sample_def example_info_def
  stroke_point_def open_polyline_def stroke_filter_def Let_def

lemma stroke_item_value:
  "item_value (stroke_item ps) =
     Some \<lparr>tool_name = ''BALLPOINT_2'', tool_value = 15, color_name = ''BLACK'',
           color_value = 0, thickness_scale = 2, points = ps\<rparr>"
  by (simp add: stroke_item_def)

lemma stroke_item_pen:
  "Pen_create example_tools
     (tool_value \<lparr>tool_name = ''BALLPOINT_2'', tool_value = 15, color_name = ''BLACK'',
                  color_value = 0, thickness_scale = 2, points = ps\<rparr>)
     (color_value \<lparr>tool_name = ''BALLPOINT_2'', tool_value = 15, color_name = ''BLACK'',
                   color_value = 0, thickness_scale = 2, points = ps\<rparr>)
     (thickness_scale \<lparr>tool_name = ''BALLPOINT_2'', tool_value = 15, color_name = ''BLACK'',
                       color_value = 0, thickness_scale = 2, points = ps\<rparr>) = Inr ballpoint"
  by (simp add: example_tools_def)

subsection \<open>The sentinel for "no previous point"\<close>

text \<open>
  Claim C9. \<^verbatim>\<open>draw_stroke\<close> starts with \<^verbatim>\<open>last_xpos = -1.\<close> and writes the
  connecting vertex only \<^verbatim>\<open>if last_xpos != -1.\<close>. For every stroke whose Item is present
  and whose pen has a segment length other than 0, \<^verbatim>\<open>draw_stroke\<close> returns, and the
  vertices it has written are, sample by sample, the connecting vertex and the sample's
  own vertex: the connecting vertex that joins sample \<open>k\<close> to sample \<open>k + 1\<close> is left out
  when the translated x-coordinate of sample \<open>k\<close> is \<open>-1\<close>, and is written, at the
  position of sample \<open>k\<close>, when it is not.
\<close>

theorem sentinel_drops_connection:
  assumes "item_value item = Some l"
    and "Pen_create T (tool_value l) (color_value l) (thickness_scale l) = Inr pen"
    and "segment_length pen \<noteq> 0"
  shows "\<exists>output'. draw_stroke T item info output = Inr output' \<and>
           vertices output' =
             vertices output @
             concat (map (sample_vertices info (points l)) [0..<length (points l)]) \<and>
           (\<forall>k. Suc k < length (points l) \<longrightarrow>
              (pt_x (points l ! k) + xpos_delta info = - 1 \<longrightarrow>
                 sample_vertices info (points l) (Suc k) = [translate info (points l ! Suc k)]) \<and>
              (pt_x (points l ! k) + xpos_delta info \<noteq> - 1 \<longrightarrow>
                 sample_vertices info (points l) (Suc k) =
                   [translate info (points l ! k), translate info (points l ! Suc k)]))"
proof -
  from draw_stroke_returns [OF assms(1,2), of info "output"] assms(3)
  obtain output' where out: "draw_stroke T item info output = Inr output'"
    by auto
  from draw_stroke_vertices [OF out assms(1)] out show ?thesis
    by (simp add: sample_vertices_def translate_def)
qed

theorem sentinel_drops_connection_witness:
  "\<exists>out. draw_stroke example_tools (stroke_item [sample (- 703) 3, sample 10 4, sample 20 5])
            example_info [] = Inr out \<and>
     vertices out = [(- 1, 3), (712, 4), (712, 4), (722, 5)]"
proof -
  have s: "segment_length ballpoint \<noteq> 0"
    by (simp add: ballpoint_def)
  from sentinel_drops_connection
         [OF stroke_item_value [of "[sample (- 703) 3, sample 10 4, sample 20 5]"]
             stroke_item_pen [of "[sample (- 703) 3, sample 10 4, sample 20 5]"] s,
          of example_info "[]"]
  show ?thesis
    by (simp add: sample_vertices_def translate_def sample_def example_info_def upt_rec)
qed

subsection \<open>The sub-paths of a stroke\<close>

lemma grouped_length: "length (grouped L pv n) = (n + L - 1) div L"
  by (simp add: grouped_def)

lemma grouped_cong: "(\<And>k. k < n \<Longrightarrow> pv k = pv' k) \<Longrightarrow> grouped L pv n = grouped L pv' n"
  by (auto simp: grouped_def intro!: arg_cong [where f = concat])

lemma count_boundary:
  assumes "0 < L" "n mod L = 0"
  shows "(n + L - 1) div L = n div L" "(Suc n + L - 1) div L = Suc (n div L)"
proof -
  from assms(2) have "L dvd n" by (simp add: mod_eq_0_iff_dvd)
  then obtain q where "n = L * q" ..
  then have q: "n = q * L" by (simp add: mult.commute)
  have "n + L - 1 = (L - 1) + q * L" using assms(1) q by simp
  then have "(n + L - 1) div L = q + (L - 1) div L"
    using assms(1) by (simp only: div_mult_self1) 
  with assms(1) q show "(n + L - 1) div L = n div L" by simp
  from assms(1) show "(Suc n + L - 1) div L = Suc (n div L)"
    by simp
qed

lemma count_inside:
  assumes "0 < L" "n mod L \<noteq> 0"
  shows "(n + L - 1) div L = Suc (n div L)" "(Suc n + L - 1) div L = Suc (n div L)"
proof -
  let ?q = "n div L" and ?r = "n mod L"
  have n: "n = ?r + ?q * L" by simp
  from assms have r: "0 < ?r" "?r < L" by simp_all
  have "n + L - 1 = (?r - 1) + (Suc ?q) * L" using r n by simp
  then have "(n + L - 1) div L = Suc ?q + (?r - 1) div L"
    using assms(1) by (simp only: div_mult_self1)
  with r show "(n + L - 1) div L = Suc (n div L)" by simp
  from assms(1) show "(Suc n + L - 1) div L = Suc (n div L)"
    by simp
qed


lemma full_group:
  fixes j n L :: nat
  assumes "j < n div L"
  shows "j * L + L \<le> n"
proof -
  from assms have "Suc j \<le> n div L" by simp
  then have "Suc j * L \<le> (n div L) * L" by (rule mult_le_mono1)
  also have "\<dots> \<le> n" by simp
  finally show ?thesis by (simp add: add.commute)
qed

lemma grouped_Suc_boundary:
  assumes "0 < L" "n mod L = 0"
  shows "grouped L pv (Suc n) = grouped L pv n @ [pv n]"
proof -
  let ?q = "n div L"
  from assms(2) have qn: "?q * L = n"
    by (metis div_mult_mod_eq add.right_neutral)
  have old: "concat (map pv [j * L..<min (Suc n) (j * L + L)]) =
             concat (map pv [j * L..<min n (j * L + L)])" if "j < ?q" for j
    using full_group [OF that] by (simp add: min_def)
  have new: "concat (map pv [?q * L..<min (Suc n) (?q * L + L)]) = pv n"
    using assms(1) qn by (simp add: min_def)
  have "grouped L pv (Suc n) =
          map (\<lambda>j. concat (map pv [j * L..<min (Suc n) (j * L + L)])) ([0..<?q] @ [?q])"
    unfolding grouped_def count_boundary(2) [OF assms] by simp
  also have "\<dots> = map (\<lambda>j. concat (map pv [j * L..<min n (j * L + L)])) [0..<?q] @ [pv n]"
    using old new by simp
  also have "\<dots> = grouped L pv n @ [pv n]"
    unfolding grouped_def count_boundary(1) [OF assms] by simp
  finally show ?thesis .
qed

lemma grouped_Suc_inside:
  assumes "0 < L" "n mod L \<noteq> 0"
  shows "grouped L pv n \<noteq> []"
    and "grouped L pv (Suc n) = butlast (grouped L pv n) @ [last (grouped L pv n) @ pv n]"
proof -
  let ?q = "n div L"
  let ?front = "map (\<lambda>j. concat (map pv [j * L..<min n (j * L + L)])) [0..<?q]"
  have lo: "?q * L \<le> n" by simp
  have "n = n mod L + ?q * L" by simp
  moreover have "n mod L < L" using assms(1) by simp
  ultimately have hi: "n < ?q * L + L" by linarith
  have old: "concat (map pv [j * L..<min (Suc n) (j * L + L)]) =
             concat (map pv [j * L..<min n (j * L + L)])" if "j < ?q" for j
    using full_group [OF that] by (simp add: min_def)
  have g: "grouped L pv n = ?front @ [concat (map pv [?q * L..<n])]"
    unfolding grouped_def count_inside(1) [OF assms] using hi by (simp add: min_def)
  then show "grouped L pv n \<noteq> []" by simp
  have "grouped L pv (Suc n) =
          map (\<lambda>j. concat (map pv [j * L..<min (Suc n) (j * L + L)])) ([0..<?q] @ [?q])"
    unfolding grouped_def count_inside(2) [OF assms] by simp
  also have "\<dots> = ?front @ [concat (map pv [?q * L..<Suc n])]"
    using old hi by (simp add: min_def)
  also have "\<dots> = ?front @ [concat (map pv [?q * L..<n]) @ pv n]"
    using lo by simp
  finally show "grouped L pv (Suc n) = butlast (grouped L pv n) @ [last (grouped L pv n) @ pv n]"
    unfolding g by simp
qed


lemma grouped_0 [simp]: "0 < L \<Longrightarrow> grouped L pv 0 = []"
  by (simp add: grouped_def)

lemma subpaths_append: "subpaths (xs @ ys) = foldl subpaths_step (subpaths xs) ys"
  by (simp add: subpaths_def)

lemma subpaths_step_vertex [simp]:
  "subpaths_step acc [Fix3 a, Lit '','', Fix3 b, Lit '' ''] =
     (if acc = [] then [] else butlast acc @ [last acc @ [(a, b)]])"
  by (simp add: subpaths_step_def opens_polyline_def)

lemma foldl_open_polyline [simp]:
  "foldl subpaths_step acc (open_polyline pen f p w) = acc @ [[]]"
  by (simp add: open_polyline_def Let_def subpaths_step_def opens_polyline_def vertex_of_def)

lemma foldl_point_chunks:
  "foldl subpaths_step acc (point_chunks pen f info i p s) =
     (if int i mod segment_length pen = 0
      then acc @ [(if last_xpos s \<noteq> - 1 then [(last_xpos s, last_ypos s)] else []) @
                  [translate info p]]
      else if acc = [] then []
      else butlast acc @
           [last acc @ (if last_xpos s \<noteq> - 1 then [(last_xpos s, last_ypos s)] else []) @
                       [translate info p]])"
  by (simp add: point_chunks_def)

lemma stroke_loop_snoc:
  "stroke_loop pen f info i (ps @ [p]) s =
     (case stroke_loop pen f info i ps s of
        Inl e \<Rightarrow> Inl e
      | Inr s1 \<Rightarrow> stroke_point pen f info (i + length ps) p s1)"
  by (induction ps arbitrary: i s) (auto split: sum.splits)

lemma opens_at:
  assumes "1 \<le> L"
  shows "(int n mod L = 0) = (n mod nat L = 0)"
proof -
  from assms have "int n mod L = int (n mod nat L)"
    by (simp add: zmod_int)
  then show ?thesis by simp
qed

lemma sample_vertices_prefix:
  "k < length ps \<Longrightarrow> sample_vertices info (ps @ [p]) k = sample_vertices info ps k"
  by (auto simp: sample_vertices_def nth_append)

lemma stroke_loop_subpaths:
  assumes "1 \<le> segment_length pen" "last_xpos s0 = - 1"
  shows "stroke_loop pen f info 0 ps s0 = Inr s' \<Longrightarrow>
     subpaths (written s') =
       subpaths (written s0) @
       grouped (nat (segment_length pen)) (sample_vertices info ps) (length ps) \<and>
     (ps \<noteq> [] \<longrightarrow> last_xpos s' = fst (translate info (last ps)) \<and>
                  last_ypos s' = snd (translate info (last ps)))"
proof (induction ps arbitrary: s' rule: rev_induct)
  case Nil
  with assms(1) show ?case by simp
next
  case (snoc p ps)
  let ?L = "nat (segment_length pen)"
  let ?n = "length ps"
  let ?pv = "sample_vertices info (ps @ [p])"
  from assms(1) have L: "0 < ?L" by simp
  from snoc.prems obtain s1 where
    s1: "stroke_loop pen f info 0 ps s0 = Inr s1"
    and step: "stroke_point pen f info ?n p s1 = Inr s'"
    by (auto simp: stroke_loop_snoc split: sum.splits)
  note IH = snoc.IH [OF s1]
  note st = stroke_point_Inr [OF step]
  have vs: "(if last_xpos s1 \<noteq> - 1 then [(last_xpos s1, last_ypos s1)] else []) @
            [translate info p] = ?pv ?n"
  proof (cases "ps = []")
    case True
    with s1 assms(2) show ?thesis by (simp add: sample_vertices_def)
  next
    case False
    with IH have "last_xpos s1 = fst (translate info (last ps))"
      "last_ypos s1 = snd (translate info (last ps))" by simp_all
    moreover from False have "(ps @ [p]) ! (?n - 1) = last ps"
      by (simp add: nth_append last_conv_nth)
    ultimately show ?thesis using False
      by (simp add: sample_vertices_def)
  qed
  have old: "grouped ?L ?pv ?n = grouped ?L (sample_vertices info ps) ?n"
    by (rule grouped_cong) (rule sample_vertices_prefix)
  have "subpaths (written s') =
          subpaths (written s0) @ grouped ?L ?pv (Suc ?n)"
  proof (cases "?n mod ?L = 0")
    case True
    with st(1) IH vs grouped_Suc_boundary [OF L True, of ?pv] old assms(1) show ?thesis
      by (simp add: subpaths_append foldl_point_chunks opens_at)
  next
    case False
    from grouped_Suc_inside [OF L False, of ?pv] old
    have ne: "grouped ?L (sample_vertices info ps) ?n \<noteq> []"
      and eq: "grouped ?L ?pv (Suc ?n) =
                 butlast (grouped ?L (sample_vertices info ps) ?n) @
                 [last (grouped ?L (sample_vertices info ps) ?n) @ ?pv ?n]"
      by simp_all
    from st(1) IH vs False assms(1) ne show ?thesis
      unfolding eq
      by (simp add: subpaths_append foldl_point_chunks opens_at butlast_append)
  qed
  with st(2,3) show ?case by simp
qed


lemma ceiling_div_nat:
  assumes "0 < L"
  shows "\<lceil>(of_nat n :: rat) / of_nat L\<rceil> = int ((n + L - 1) div L)"
proof -
  have "\<lceil>(of_nat n :: rat) / of_nat L\<rceil> = \<lceil>(of_int (int n) :: rat) / of_int (int L)\<rceil>"
    by simp
  also have "\<dots> = - (- int n div int L)"
    by (rule ceiling_divide_eq_div)
  also have "\<dots> = (if int n mod int L = 0 then int n div int L else int n div int L + 1)"
    using assms by (simp add: zdiv_zminus1_eq_if)
  also have "\<dots> = int ((n + L - 1) div L)"
  proof (cases "n mod L = 0")
    case True
    then have "int n mod int L = 0" by (simp flip: zmod_int)
    with count_boundary(1) [OF assms True] show ?thesis
      by (simp add: zdiv_int)
  next
    case False
    then have "int n mod int L \<noteq> 0" by (simp flip: zmod_int)
    with count_inside(1) [OF assms False] show ?thesis
      by (simp add: zdiv_int)
  qed
  finally show ?thesis .
qed


lemma subpaths_stroke_start [simp]:
  "subpaths (written (stroke_start item l out)) = subpaths out"
  by (simp add: stroke_start_def subpaths_append subpaths_step_def opens_polyline_def vertex_of_def)

lemma draw_stroke_subpaths:
  assumes "draw_stroke T item info out = Inr out'" "item_value item = Some l"
    and "Pen_create T (tool_value l) (color_value l) (thickness_scale l) = Inr pen"
    and "1 \<le> segment_length pen"
  shows "subpaths out' =
           subpaths out @
           grouped (nat (segment_length pen)) (sample_vertices info (points l)) (length (points l))"
proof -
  from assms(1,2,3) obtain s where
    loop: "stroke_loop pen (stroke_filter (tool_name l)) info 0 (points l)
             (stroke_start item l out) = Inr s"
    and out: "out' = written s @ [[Lit ''\" /></g>\<newline>'']]"
    by (auto simp: draw_stroke_present split: sum.splits)
  have "last_xpos (stroke_start item l out) = - 1"
    by (simp add: stroke_start_def)
  from stroke_loop_subpaths [OF assms(4) this loop] out show ?thesis
    by (simp add: subpaths_append subpaths_step_def opens_polyline_def vertex_of_def)
qed

lemma grouped_nth:
  fixes L n j :: nat
  assumes "0 < L" "j * L < n"
  shows "j < (n + L - 1) div L"
    and "grouped L pv n ! j = concat (map pv [j * L..<min n (j * L + L)])"
proof -
  from assms(2) have "j * L + L \<le> n + L - 1" by simp
  then have "(j * L + L) div L \<le> (n + L - 1) div L" by (rule div_le_mono)
  with assms(1) show j: "j < (n + L - 1) div L" by simp
  then show "grouped L pv n ! j = concat (map pv [j * L..<min n (j * L + L)])"
    by (simp add: grouped_def)
qed

lemma grouped_hd:
  fixes L n j :: nat
  assumes "0 < L" "j * L < n"
  shows "hd (grouped L (sample_vertices info ps) n ! j) = hd (sample_vertices info ps (j * L))"
proof -
  from assms have "[j * L..<min n (j * L + L)] = j * L # [Suc (j * L)..<min n (j * L + L)]"
    by (simp add: upt_conv_Cons)
  with grouped_nth(2) [OF assms, of "sample_vertices info ps"]
  have "grouped L (sample_vertices info ps) n ! j =
          sample_vertices info ps (j * L) @
          concat (map (sample_vertices info ps) [Suc (j * L)..<min n (j * L + L)])"
    by simp
  moreover have "sample_vertices info ps (j * L) \<noteq> []"
    by (simp add: sample_vertices_def)
  ultimately show ?thesis by simp
qed


lemmas subpaths_eval = subpaths_def subpaths_step_def opens_polyline_def vertex_of_def

lemma three_samples_drawn:
  "\<exists>out. draw_stroke example_tools three_samples example_info [] = Inr out \<and>
         subpaths out = [[(702, 0), (702, 0), (712, 0)], [(712, 0), (722, 0)]]"
  by (simp add: three_samples_def stroke_eval subpaths_eval)

text \<open>
  Claim C3. The claim: a stroke of \<open>n \<ge> 1\<close> samples drawn with segment length \<open>L\<close>
  yields \<open>ceil(n / L)\<close> polyline sub-paths, the first vertex of each sub-path has no
  connecting segment before it, and 3 samples with \<open>L = 2\<close> give one group of two
  sub-paths of 2 and 1 samples. The count holds. The second part fails: the loop does not
  reset \<^verbatim>\<open>last_xpos\<close> when it opens a polyline ("Join to previous polyline segment"),
  so every sub-path after the first starts with the connecting vertex, the position of
  the sample before, and only then holds its own first sample. Amended: for \<open>L \<ge> 1\<close>
  the sub-paths are the groups of \<open>L\<close> consecutive samples, their number is
  \<open>ceil(n / L)\<close>, each sample is written as its connecting vertex (left out for the
  first sample of the stroke and after a position with x = -1) followed by its own vertex;
  the first sub-path starts with the first sample, every later sub-path starts with the
  connecting vertex. For 3 samples and \<open>L = 2\<close> the sub-paths hold the samples 0, 1 and
  the sample 2, in 3 and 2 vertices.
\<close>

theorem later_subpath_starts_with_connection:
  "\<exists>out. draw_stroke example_tools three_samples example_info [] = Inr out \<and>
         subpaths out = [[(702, 0), (702, 0), (712, 0)], [(712, 0), (722, 0)]] \<and>
         hd (subpaths out ! 1) = translate example_info (sample 10 0) \<and>
         hd (subpaths out ! 1) \<noteq> translate example_info (sample 20 0)"
proof -
  from three_samples_drawn obtain out where
    "draw_stroke example_tools three_samples example_info [] = Inr out"
    "subpaths out = [[(702, 0), (702, 0), (712, 0)], [(712, 0), (722, 0)]]"
    by blast
  then show ?thesis
    by (auto simp: translate_def example_info_def sample_def)
qed

theorem subpaths_of_stroke:
  assumes "draw_stroke T item info output = Inr output'" "item_value item = Some l"
    and "Pen_create T (tool_value l) (color_value l) (thickness_scale l) = Inr pen"
    and "1 \<le> segment_length pen"
  shows "subpaths output' =
           subpaths output @
           grouped (nat (segment_length pen)) (sample_vertices info (points l)) (length (points l)) \<and>
         int (length (grouped (nat (segment_length pen)) (sample_vertices info (points l))
                        (length (points l)))) =
           \<lceil>(of_nat (length (points l)) :: rat) / of_int (segment_length pen)\<rceil> \<and>
         (0 < length (points l) \<longrightarrow>
            hd (grouped (nat (segment_length pen)) (sample_vertices info (points l))
                  (length (points l)) ! 0) = translate info (points l ! 0)) \<and>
         (\<forall>j. 0 < j \<and> j * nat (segment_length pen) < length (points l) \<and>
               fst (translate info (points l ! (j * nat (segment_length pen) - 1))) \<noteq> - 1 \<longrightarrow>
            hd (grouped (nat (segment_length pen)) (sample_vertices info (points l))
                  (length (points l)) ! j) =
              translate info (points l ! (j * nat (segment_length pen) - 1)))"
proof -
  let ?L = "nat (segment_length pen)"
  from assms(4) have L: "0 < ?L" by simp
  have count: "int (length (grouped ?L (sample_vertices info (points l)) (length (points l)))) =
           \<lceil>(of_nat (length (points l)) :: rat) / of_int (segment_length pen)\<rceil>"
    using ceiling_div_nat [OF L, of "length (points l)"] assms(4)
    by (simp add: grouped_length)
  have first: "hd (grouped ?L (sample_vertices info (points l)) (length (points l)) ! 0) =
                 translate info (points l ! 0)" if "0 < length (points l)"
    using grouped_hd [OF L, of 0 "length (points l)" info "points l"] that
    by (simp add: sample_vertices_def)
  have later: "hd (grouped ?L (sample_vertices info (points l)) (length (points l)) ! j) =
              translate info (points l ! (j * ?L - 1))"
    if "0 < j" "j * ?L < length (points l)"
       "fst (translate info (points l ! (j * ?L - 1))) \<noteq> - 1" for j
    using grouped_hd [OF L that(2), of info "points l"] that(1,3) L
    by (simp add: sample_vertices_def)
  from draw_stroke_subpaths [OF assms] count first later show ?thesis
    by blast
qed

theorem subpaths_of_stroke_witness:
  "\<exists>out. draw_stroke example_tools three_samples example_info [] = Inr out \<and>
         subpaths out = [[(702, 0), (702, 0), (712, 0)], [(712, 0), (722, 0)]] \<and>
         int (length (subpaths out)) = \<lceil>(3 :: rat) / 2\<rceil>"
proof -
  from three_samples_drawn obtain out where
    out: "draw_stroke example_tools three_samples example_info [] = Inr out"
    and sp: "subpaths out = [[(702, 0), (702, 0), (712, 0)], [(712, 0), (722, 0)]]"
    by blast
  have l: "item_value three_samples =
     Some \<lparr>tool_name = ''BALLPOINT_2'', tool_value = 15, color_name = ''BLACK'',
           color_value = 0, thickness_scale = 2,
           points = [sample 0 0, sample 10 0, sample 20 0]\<rparr>"
    by (simp add: three_samples_def stroke_item_def)
  have p: "Pen_create example_tools
             (tool_value \<lparr>tool_name = ''BALLPOINT_2'', tool_value = 15, color_name = ''BLACK'',
                color_value = 0, thickness_scale = 2,
                points = [sample 0 0, sample 10 0, sample 20 0]\<rparr>)
             (color_value \<lparr>tool_name = ''BALLPOINT_2'', tool_value = 15, color_name = ''BLACK'',
                color_value = 0, thickness_scale = 2,
                points = [sample 0 0, sample 10 0, sample 20 0]\<rparr>)
             (thickness_scale \<lparr>tool_name = ''BALLPOINT_2'', tool_value = 15, color_name = ''BLACK'',
                color_value = 0, thickness_scale = 2,
                points = [sample 0 0, sample 10 0, sample 20 0]\<rparr>) = Inr ballpoint"
    by (simp add: example_tools_def)
  have s: "1 \<le> segment_length ballpoint"
    by (simp add: ballpoint_def)
  from subpaths_of_stroke [OF out l p s]
  have "int (length (subpaths out)) = \<lceil>(3 :: rat) / 2\<rceil>"
    by (simp add: ballpoint_def subpaths_def)
  with out sp show ?thesis
    by blast
qed


section \<open>The marks of a document\<close>

lemmas mark_defs = mark_of_def vertex_of_def rect_of_def

lemma marks_Nil [simp]: "marks [] = []"
  by (simp add: marks_def map_filter_def)

lemma marks_append [simp]: "marks (xs @ ys) = marks xs @ marks ys"
  by (simp add: marks_def map_filter_def)

lemma marks_Cons:
  "marks (c # cs) = (case mark_of c of None \<Rightarrow> [] | Some m \<Rightarrow> [m]) @ marks cs"
  by (simp add: marks_def map_filter_def split: option.splits)

lemma mark_of_vertex [simp]:
  "mark_of [Fix3 a, Lit '','', Fix3 b, Lit '' ''] = Some (Vertex a b)"
  by (simp add: mark_defs)

lemma marks_open_polyline [simp]: "marks (open_polyline pen f p w) = []"
  by (simp add: open_polyline_def Let_def marks_Cons mark_defs)

lemma marks_point_chunks:
  "marks (point_chunks pen f info i p s) =
     (if last_xpos s \<noteq> - 1 then [Vertex (last_xpos s) (last_ypos s)] else []) @
     [Vertex (fst (translate info p)) (snd (translate info p))]"
  by (simp add: point_chunks_def marks_Cons)

lemma stroke_loop_marks:
  "stroke_loop pen f info i ps s = Inr s' \<Longrightarrow>
   marks (written s') =
     marks (written s) @
     map (\<lambda>v. Vertex (fst v) (snd v)) (joined (last_xpos s, last_ypos s) (map (translate info) ps))"
proof (induction ps arbitrary: i s)
  case Nil
  then show ?case by simp
next
  case (Cons p ps)
  from Cons.prems obtain s1 where
    s1: "stroke_point pen f info i p s = Inr s1"
    and rest: "stroke_loop pen f info (Suc i) ps s1 = Inr s'"
    by (auto split: sum.splits)
  from stroke_point_Inr [OF s1] Cons.IH [OF rest] show ?case
    by (simp add: marks_point_chunks)
qed

lemma marks_stroke_start [simp]: "marks (written (stroke_start item l output)) = marks output"
  by (simp add: stroke_start_def marks_Cons mark_defs)

lemma draw_stroke_marks:
  assumes "draw_stroke T item info output = Inr output'"
  shows "marks output' = marks output @ block_marks info (SceneLineItemBlock item)"
proof (cases "item_value item")
  case None
  with assms show ?thesis
    by (auto simp: draw_stroke_def block_marks_def marks_Cons mark_defs)
next
  case (Some l)
  with assms obtain pen s where
    loop: "stroke_loop pen (stroke_filter (tool_name l)) info 0 (points l)
             (stroke_start item l output) = Inr s"
    and out: "output' = written s @ [[Lit ''\" /></g>\<newline>'']]"
    by (auto simp: draw_stroke_present split: sum.splits)
  have "last_xpos (stroke_start item l output) = - 1"
    by (simp add: stroke_start_def)
  with stroke_loop_marks [OF loop] out Some show ?thesis
    by (simp add: joined_sample_vertices marks_Cons mark_defs block_marks_def stroke_marks_def)
qed

lemma draw_highlight_marks:
  assumes "draw_highlight T item info output = Inr output'"
  shows "marks output' = marks output @ block_marks info (SceneGlyphItemBlock item)"
  using assms
  by (auto simp: draw_highlight_def block_marks_def marks_Cons mark_defs Let_def
           split: option.splits list.splits)

lemma text_loop_marks:
  "text_loop b info its out = Inr out' \<Longrightarrow> marks out' = marks out"
proof (induction its arbitrary: out)
  case Nil
  then show ?case by simp
next
  case (Cons text_item its)
  from Cons.prems obtain s where "ti_value text_item = TextStr s" "strip s = []"
    and rest: "text_loop b info its
                 (out @ [[Lit ''        <!-- TextItem item_id: '', Lit (ti_item_id text_item),
                         Lit '' -->\<newline>'']]) = Inr out'"
    by (auto simp: Let_def split: text_value.splits if_splits)
  from Cons.IH [OF rest] show ?case
    by (simp add: marks_Cons mark_defs)
qed

lemma draw_text_marks:
  "draw_text b info out = Inr out' \<Longrightarrow>
   marks out' = marks out @ block_marks info (RootTextBlock b)"
  unfolding draw_text_def
  by (drule text_loop_marks) (simp add: block_marks_def marks_Cons mark_defs)

lemma draw_blocks_marks:
  "draw_blocks T info bs out = Inr out' \<Longrightarrow>
   marks out' = marks out @ concat (map (block_marks info) bs)"
proof (induction T info bs out rule: draw_blocks.induct)
  case (1 T info out)
  then show ?case by simp
next
  case (2 T info item bs out)
  from "2.prems" obtain o1 where o1: "draw_stroke T item info out = Inr o1"
    and rest: "draw_blocks T info bs o1 = Inr out'"
    by (auto split: sum.splits)
  from "2.IH" [OF o1 rest] draw_stroke_marks [OF o1] show ?case by simp
next
  case (3 T info b bs out)
  from "3.prems" obtain o1 where o1: "draw_text b info out = Inr o1"
    and rest: "draw_blocks T info bs o1 = Inr out'"
    by (auto split: sum.splits)
  from "3.IH" [OF o1 rest] draw_text_marks [OF o1] show ?case by simp
next
  case (4 T info item bs out)
  from "4.prems" obtain o1 where o1: "draw_highlight T item info out = Inr o1"
    and rest: "draw_blocks T info bs o1 = Inr out'"
    by (auto split: sum.splits)
  from "4.IH" [OF o1 rest] draw_highlight_marks [OF o1] show ?case by simp
qed (simp_all add: block_marks_def)

lemma marks_header [simp]: "marks [SVG_HEADER h w] = []"
  by (simp add: SVG_HEADER_def marks_Cons mark_defs)

lemma blocks_to_svg_marks:
  assumes "blocks_to_svg T blocks output = Inr output'"
  shows "\<exists>info. get_dimensions blocks = Inr info \<and>
           marks output' = marks output @ concat (map (block_marks info) blocks)"
proof -
  from assms obtain info where info: "get_dimensions blocks = Inr info"
    by (auto simp: blocks_to_svg_def split: sum.splits)
  let ?pre = "output @
                 [SVG_HEADER (height info) (width info),
                  [Lit ''\<newline>''],
                  [Lit ''    <g id=\"p1\" style=\"display:inline\">\<newline>''],
                  [Lit ''        <filter id=\"blurMe\"><feGaussianBlur in=\"SourceGraphic\" stdDeviation=\"10\" /></filter>\<newline>''],
                  [Lit ''        <line x1=\"'', Str (PyFloat (of_int (width info) / 2)),
                   Lit ''\" y1=\"0\" x2=\"'', Str (PyFloat (of_int (width info) / 2)),
                   Lit ''\" y2=\"'', Str (height info),
                   Lit ''\" stroke=\"red\" stroke-width=\"1\"/>\<newline>'']]"
  from assms info obtain o2 where
    o2: "draw_blocks T info blocks ?pre = Inr o2"
    and out: "output' = o2 @
                       [[Lit ''\<newline>''],
                        [Lit ''        <!-- clickable rect to flip pages -->\<newline>''],
                        [Lit ''    </g>\<newline>''],
                        [Lit ''</svg>\<newline>'']]"
    by (auto simp: blocks_to_svg_def Let_def split: sum.splits)
  have "marks ?pre = marks output"
    using marks_header [of "height info" "width info"]
    by (simp add: marks_Cons mark_defs del: marks_header)
  with draw_blocks_marks [OF o2] out info show ?thesis
    by (simp add: marks_Cons mark_defs)
qed


subsection \<open>When the renderer returns\<close>

lemma text_loop_returns:
  "list_all blank_item its \<Longrightarrow> \<exists>out'. text_loop b info its out = Inr out'"
  by (induction its arbitrary: out)
     (auto simp: blank_item_def Let_def split: text_value.splits)

lemma draw_blocks_returns:
  "list_all (drawable T) bs \<Longrightarrow> \<exists>out'. draw_blocks T info bs out = Inr out'"
proof (induction T info bs out rule: draw_blocks.induct)
  case (1 T info out)
  then show ?case by simp
next
  case (2 T info item bs out)
  have "\<exists>o1. draw_stroke T item info out = Inr o1"
  proof (cases "item_value item")
    case None
    then show ?thesis by (simp add: draw_stroke_def)
  next
    case (Some l)
    with "2.prems" obtain pen where
      "Pen_create T (tool_value l) (color_value l) (thickness_scale l) = Inr pen"
      "segment_length pen \<noteq> 0 \<or> points l = []"
      by (auto simp: drawable_def split: sum.splits)
    with Some show ?thesis by (rule draw_stroke_returns)
  qed
  then obtain o1 where o1: "draw_stroke T item info out = Inr o1" ..
  with "2.IH" [OF o1] "2.prems" show ?case by simp
next
  case (3 T info b bs out)
  then have "list_all blank_item (text_items b)" by (simp add: drawable_def)
  from text_loop_returns [OF this] obtain o1 where o1: "draw_text b info out = Inr o1"
    unfolding draw_text_def by blast
  with "3.IH" [OF o1] "3.prems" show ?case by simp
next
  case (4 T info item bs out)
  then have "\<exists>o1. draw_highlight T item info out = Inr o1"
    by (auto simp: drawable_def draw_highlight_def Let_def split: option.splits list.splits)
  then obtain o1 where o1: "draw_highlight T item info out = Inr o1" ..
  with "4.IH" [OF o1] "4.prems" show ?case by simp
qed simp_all

lemma case_sum_returns:
  "\<exists>o2. f = Inr o2 \<Longrightarrow> \<exists>out'. (case f of Inl e \<Rightarrow> Inl e | Inr o2 \<Rightarrow> Inr (g o2)) = Inr out'"
  by auto

lemma blocks_to_svg_returns:
  assumes "get_dimensions blocks = Inr info" "list_all (drawable T) blocks"
  shows "\<exists>out'. blocks_to_svg T blocks out = Inr out'"
  unfolding blocks_to_svg_def Let_def
  by (simp only: assms(1) sum.case)
     (rule case_sum_returns, rule draw_blocks_returns [OF assms(2)])


section \<open>The document as a whole\<close>

subsection \<open>A document with a drawable block has known bounds\<close>

lemma merge_limits_known_left:
  "known cur \<Longrightarrow> all_or_none tmp \<Longrightarrow> \<exists>cur'. merge_limits cur tmp = Inr cur' \<and> known cur'"
  by (auto simp: known_def all_or_none_def merge_limits_def lower_opt_def raise_opt_def)

lemma merge_limits_known_right:
  "all_or_none cur \<Longrightarrow> known tmp \<Longrightarrow> \<exists>cur'. merge_limits cur tmp = Inr cur' \<and> known cur'"
  by (auto simp: known_def all_or_none_def merge_limits_def lower_opt_def raise_opt_def)

lemma get_limits_stroke_known:
  assumes "item_value item = Some l" "points l \<noteq> []"
  shows "known (get_limits_stroke item)"
proof -
  from assms(2) obtain p ps where "points l = p # ps" by (cases "points l") auto
  with assms(1) limits_points_some [of ps "pt_x p" "pt_x p" "pt_y p" "pt_y p"] show ?thesis
    by (auto simp: get_limits_stroke_def known_def lower_def raise_def)
qed

lemma get_limits_highlight_drawable:
  assumes "drawable T (SceneGlyphItemBlock item)"
  shows "\<exists>tmp. get_limits_highlight item = Inr tmp \<and> (item_value item \<noteq> None \<longrightarrow> known tmp)"
proof (cases "item_value item")
  case None
  then show ?thesis by (simp add: get_limits_highlight_def)
next
  case (Some g)
  with assms have "rectangles g \<noteq> []" by (simp add: drawable_def)
  then obtain r rs where "rectangles g = r # rs" by (cases "rectangles g") auto
  with Some show ?thesis by (simp add: get_limits_highlight_def known_def)
qed

lemma limits_blocks_known:
  "list_all (drawable T) bs \<Longrightarrow> known cur \<or> (all_or_none cur \<and> \<not> list_all no_bounds bs) \<Longrightarrow>
   \<exists>cur'. limits_blocks bs cur = Inr cur' \<and> known cur'"
proof (induction bs cur rule: limits_blocks.induct)
  case (1 cur)
  then show ?case by simp
next
  case (2 item bs cur)
  have aon: "all_or_none cur" using "2.prems"(2) by (auto simp: known_def all_or_none_def)
  from merge_limits_all_or_none [OF aon get_limits_stroke_all_or_none [of item]]
  obtain c where c: "merge_limits cur (get_limits_stroke item) = Inr c" "all_or_none c" by blast
  have "known c \<or> (all_or_none c \<and> \<not> list_all no_bounds bs)"
  proof (cases "known cur")
    case True
    from merge_limits_known_left [OF True get_limits_stroke_all_or_none [of item]] c
    show ?thesis by simp
  next
    case False
    with "2.prems"(2) have nb: "\<not> list_all no_bounds (SceneLineItemBlock item # bs)" by simp
    show ?thesis
    proof (cases "no_bounds (SceneLineItemBlock item)")
      case True
      with nb c show ?thesis by simp
    next
      case False
      then obtain l where "item_value item = Some l" "points l \<noteq> []"
        by (auto simp: no_bounds_def split: option.splits)
      from merge_limits_known_right [OF aon get_limits_stroke_known [OF this]] c
      show ?thesis by simp
    qed
  qed
  with "2.IH" [OF c(1)] "2.prems"(1) c show ?case by simp
next
  case (3 item bs cur)
  have aon: "all_or_none cur" using "3.prems"(2) by (auto simp: known_def all_or_none_def)
  from "3.prems"(1) have "drawable T (SceneGlyphItemBlock item)" by simp
  from get_limits_highlight_drawable [OF this]
  obtain tmp where t: "get_limits_highlight item = Inr tmp"
    and tk: "item_value item \<noteq> None \<longrightarrow> known tmp"
    by blast
  from merge_limits_all_or_none [OF aon get_limits_highlight_all_or_none [OF t]]
  obtain c where c: "merge_limits cur tmp = Inr c" "all_or_none c" by blast
  have "known c \<or> (all_or_none c \<and> \<not> list_all no_bounds bs)"
  proof (cases "known cur")
    case True
    from merge_limits_known_left [OF True get_limits_highlight_all_or_none [OF t]] c
    show ?thesis by simp
  next
    case False
    with "3.prems"(2) have nb: "\<not> list_all no_bounds (SceneGlyphItemBlock item # bs)" by simp
    show ?thesis
    proof (cases "no_bounds (SceneGlyphItemBlock item)")
      case True
      with nb c show ?thesis by simp
    next
      case False
      then have "item_value item \<noteq> None" by (simp add: no_bounds_def)
      with tk have "known tmp" by simp
      from merge_limits_known_right [OF aon this] c show ?thesis by simp
    qed
  qed
  with "3.IH" [OF t c(1)] "3.prems"(1) t c show ?case by simp
qed (simp_all add: no_bounds_def)

lemma get_limits_known:
  assumes "list_all (drawable T) blocks" "\<not> list_all no_bounds blocks"
  obtains xmin xmax ymin ymax where
    "get_limits blocks = Inr (Some xmin, Some xmax, Some ymin, Some ymax)"
proof -
  have "known (None, None, None, None) \<or>
        (all_or_none (None, None, None, None) \<and> \<not> list_all no_bounds blocks)"
    using assms(2) by (simp add: all_or_none_def)
  from limits_blocks_known [OF assms(1) this] that show thesis
    by (auto simp: get_limits_def known_def)
qed

lemma renders_with_marks:
  assumes "get_limits blocks = Inr (Some xmin, Some xmax, Some ymin, Some ymax)"
    and "list_all (drawable T) blocks"
  shows "\<exists>info out'. get_dimensions blocks = Inr info \<and>
           blocks_to_svg T blocks out = Inr out' \<and>
           marks out' = marks out @ concat (map (block_marks info) blocks)"
proof -
  from get_dimensions_known [OF assms(1)] obtain info where
    info: "get_dimensions blocks = Inr info" by blast
  from blocks_to_svg_returns [OF info assms(2)] obtain out' where
    out: "blocks_to_svg T blocks out = Inr out'" by blast
  from blocks_to_svg_marks [OF out] info out show ?thesis by auto
qed

subsection \<open>The example documents\<close>

lemmas limits_eval =
  get_limits_def stroke_of_def stroke_item_def highlight_of_def note_block_def sample_def
  get_limits_stroke_def get_limits_highlight_def merge_limits_def
  lower_def raise_def lower_opt_def raise_opt_def

lemmas marks_eval =
  block_marks_def stroke_marks_def sample_vertices_def translate_def
  stroke_of_def stroke_item_def highlight_of_def note_block_def sample_def upt_rec

lemmas drawable_eval =
  drawable_def no_bounds_def blank_item_def strip_def py_space_def
  stroke_of_def stroke_item_def highlight_of_def note_block_def sample_def
  example_tools_def ballpoint_def




lemma left_edge_drawable:
  "list_all (drawable example_tools) left_edge_doc" "\<not> list_all no_bounds left_edge_doc"
  by (simp_all add: left_edge_doc_def drawable_eval)

lemma left_edge_dimensions:
  "get_dimensions left_edge_doc =
     Inr \<lparr>height = PyInt 1, width = 712, xpos_delta = 702, ypos_delta = 0\<rparr>"
  by (simp add: get_dimensions_def left_edge_doc_def limits_eval XPOS_SHIFT_def SCREEN_WIDTH_def)

lemma left_edge_marks:
  "concat (map (block_marks \<lparr>height = PyInt 1, width = 712, xpos_delta = 702, ypos_delta = 0\<rparr>)
          left_edge_doc) = [Vertex 0 3, Vertex 0 3, Vertex 712 4]"
  by (simp add: left_edge_doc_def marks_eval)

lemma far_left_drawable: "list_all (drawable example_tools) far_left_doc"
  by (simp add: far_left_doc_def drawable_eval)

lemma far_left_dimensions:
  "get_dimensions far_left_doc =
     Inr \<lparr>height = PyInt 40, width = 900, xpos_delta = 702, ypos_delta = 0\<rparr>"
  by (simp add: get_dimensions_def far_left_doc_def limits_eval XPOS_SHIFT_def SCREEN_WIDTH_def)

lemma far_left_marks:
  "concat (map (block_marks \<lparr>height = PyInt 40, width = 900, xpos_delta = 702, ypos_delta = 0\<rparr>)
          far_left_doc) = [Vertex 702 0, Vertex 702 0, Vertex 802 40, Rect (- 98) 20 5 2]"
  by (simp add: far_left_doc_def marks_eval)

lemma above_page_drawable: "list_all (drawable example_tools) above_page_doc"
  by (simp add: above_page_doc_def drawable_eval)

lemma above_page_limits:
  "get_limits above_page_doc = Inr (Some 0, Some 5, Some (- 10), Some 5)"
  by (simp add: above_page_doc_def limits_eval)

lemma above_page_marks:
  "concat (map (block_marks \<lparr>height = PyFloat 5, width = 5, xpos_delta = 702, ypos_delta = 0\<rparr>)
          above_page_doc) = [Vertex 702 (- 10), Vertex 702 (- 10), Vertex 707 5]"
  by (simp add: above_page_doc_def marks_eval)

subsection \<open>One pair of offsets for strokes and highlights\<close>




subsection \<open>The horizontal offset\<close>

lemma get_dimensions_xpos_delta:
  assumes "get_dimensions blocks = Inr info"
  shows "xpos_delta info = max 702 (of_int (width info) / 2)"
proof -
  from assms obtain xmin xmax ymin ymax where
    l: "get_limits blocks = Inr (Some xmin, Some xmax, Some ymin, Some ymax)"
    by (rule get_dimensions_limits)
  from get_dimensions_known [OF l] assms show ?thesis
    by (auto simp: XPOS_SHIFT_def SCREEN_WIDTH_def)
qed

lemma sample_vertices_nonneg:
  assumes "\<forall>p \<in> set ps. - 702 \<le> pt_x p" "702 \<le> xpos_delta info" "k < length ps"
    and "v \<in> set (sample_vertices info ps k)"
  shows "0 \<le> fst v"
proof -
  from assms(4) have "v = translate info (ps ! k) \<or> (0 < k \<and> v = translate info (ps ! (k - 1)))"
    by (auto simp: sample_vertices_def split: if_splits)
  then obtain j where j: "j < length ps" "v = translate info (ps ! j)"
    using assms(3) by (auto intro: less_imp_diff_less)
  then have "- 702 \<le> pt_x (ps ! j)"
    using assms(1) by simp
  with j assms(2) show ?thesis
    by (simp add: translate_def)
qed

lemma block_marks_vertex_nonneg:
  assumes "\<forall>item l p. b = SceneLineItemBlock item \<longrightarrow> item_value item = Some l \<longrightarrow>
             p \<in> set (points l) \<longrightarrow> - 702 \<le> pt_x p"
    and "702 \<le> xpos_delta info" and "Vertex a c \<in> set (block_marks info b)"
  shows "0 \<le> a"
proof (cases b)
  case (SceneLineItemBlock item)
  with assms(3) obtain l where l: "item_value item = Some l"
    and m: "Vertex a c \<in> set (stroke_marks info (points l))"
    by (cases "item_value item") (auto simp: block_marks_def)
  from m obtain k v where "k < length (points l)" "v \<in> set (sample_vertices info (points l) k)"
    "a = fst v"
    by (auto simp: stroke_marks_def)
  moreover from assms(1) SceneLineItemBlock l have "\<forall>p \<in> set (points l). - 702 \<le> pt_x p"
    by simp
  ultimately show ?thesis
    using sample_vertices_nonneg [OF _ assms(2)] by blast
next
  case (RootTextBlock t)
  with assms(3) show ?thesis by (auto simp: block_marks_def)
next
  case (SceneGlyphItemBlock item)
  with assms(3) show ?thesis by (auto simp: block_marks_def split: option.splits list.splits)
next
  case PageInfoBlock
  with assms(3) show ?thesis by (auto simp: block_marks_def)
next
  case OtherBlock
  with assms(3) show ?thesis by (auto simp: block_marks_def)
qed

lemma block_marks_rect_nonneg:
  assumes "\<forall>item g r rs. b = SceneGlyphItemBlock item \<longrightarrow> item_value item = Some g \<longrightarrow>
             rectangles g = r # rs \<longrightarrow> - 702 \<le> rect_x r"
    and "702 \<le> xpos_delta info" and "Rect a c w h \<in> set (block_marks info b)"
  shows "0 \<le> a"
proof (cases b)
  case (SceneGlyphItemBlock item)
  show ?thesis
  proof (cases "item_value item")
    case None
    with assms(3) SceneGlyphItemBlock show ?thesis by (simp add: block_marks_def)
  next
    case (Some g)
    show ?thesis
    proof (cases "rectangles g")
      case Nil
      with assms(3) SceneGlyphItemBlock Some show ?thesis by (simp add: block_marks_def)
    next
      case (Cons r rs)
      with assms(3) SceneGlyphItemBlock Some have a: "a = rect_x r + xpos_delta info"
        by (simp add: block_marks_def)
      from assms(1) SceneGlyphItemBlock Some Cons have "- 702 \<le> rect_x r" by blast
      with a assms(2) show ?thesis by linarith
    qed
  qed
next
  case (SceneLineItemBlock item)
  with assms(3) show ?thesis
    by (cases "item_value item") (auto simp: block_marks_def stroke_marks_def)
next
  case (RootTextBlock t)
  with assms(3) show ?thesis by (auto simp: block_marks_def)
next
  case PageInfoBlock
  with assms(3) show ?thesis by (auto simp: block_marks_def)
next
  case OtherBlock
  with assms(3) show ?thesis by (auto simp: block_marks_def)
qed

text \<open>
  Claim C7. The claim: the horizontal offset is \<open>max 702 (width / 2)\<close>, and so, in a
  document whose sample x-coordinates are all at least \<open>-702\<close>, every x-coordinate written
  is non-negative. The offset is as claimed. The consequence holds for the vertices of the
  strokes, and fails for a highlight: its rectangle is written at \<open>rect_x + xpos_delta\<close>,
  which is negative for a rectangle to the left of \<open>-702\<close>, whatever the samples are.
  Amended: for every block sequence that has a block with bounds and on which the drawing
  pass gets through, the offset is \<open>max 702 (width / 2)\<close>; if all sample x-coordinates
  are at least \<open>-702\<close>, every vertex written has a non-negative x-coordinate; and if
  the first rectangle of every highlight has \<open>rect_x \<ge> -702\<close> as well, so has every
  rectangle written.
\<close>

theorem highlight_left_of_screen:
  "list_all (\<lambda>p. - 702 \<le> pt_x p) [sample 0 0, sample 100 40] \<and>
   (\<exists>out. blocks_to_svg example_tools far_left_doc [] = Inr out \<and>
          marks out = [Vertex 702 0, Vertex 702 0, Vertex 802 40, Rect (- 98) 20 5 2])"
proof -
  from blocks_to_svg_returns [OF far_left_dimensions far_left_drawable, of "[]"]
  obtain out where out: "blocks_to_svg example_tools far_left_doc [] = Inr out" ..
  from blocks_to_svg_marks [OF out] far_left_dimensions far_left_marks
  have "marks out = [Vertex 702 0, Vertex 702 0, Vertex 802 40, Rect (- 98) 20 5 2]"
    by auto
  with out show ?thesis
    by (auto simp: sample_def)
qed

theorem stroke_x_never_negative:
  assumes "list_all (drawable T) blocks" "\<not> list_all no_bounds blocks"
    and "\<forall>item l p. SceneLineItemBlock item \<in> set blocks \<longrightarrow> item_value item = Some l \<longrightarrow>
           p \<in> set (points l) \<longrightarrow> - 702 \<le> pt_x p"
  shows "\<exists>info output'. get_dimensions blocks = Inr info \<and>
           xpos_delta info = max 702 (of_int (width info) / 2) \<and>
           blocks_to_svg T blocks output = Inr output' \<and>
           marks output' = marks output @ concat (map (block_marks info) blocks) \<and>
           (\<forall>a b. Vertex a b \<in> set (concat (map (block_marks info) blocks)) \<longrightarrow> 0 \<le> a) \<and>
           ((\<forall>item g r rs. SceneGlyphItemBlock item \<in> set blocks \<longrightarrow> item_value item = Some g \<longrightarrow>
                rectangles g = r # rs \<longrightarrow> - 702 \<le> rect_x r) \<longrightarrow>
            (\<forall>a b w h. Rect a b w h \<in> set (concat (map (block_marks info) blocks)) \<longrightarrow> 0 \<le> a))"
proof -
  from assms(1,2) obtain xmin xmax ymin ymax where
    "get_limits blocks = Inr (Some xmin, Some xmax, Some ymin, Some ymax)"
    by (rule get_limits_known)
  from renders_with_marks [OF this assms(1), of "output"] obtain info output' where
    info: "get_dimensions blocks = Inr info"
    and out: "blocks_to_svg T blocks output = Inr output'"
    and m: "marks output' = marks output @ concat (map (block_marks info) blocks)"
    by blast
  note xd = get_dimensions_xpos_delta [OF info]
  then have ge: "702 \<le> xpos_delta info" by simp
  have v: "0 \<le> a" if "Vertex a b \<in> set (concat (map (block_marks info) blocks))" for a b
  proof -
    from that obtain blk where blk: "blk \<in> set blocks" "Vertex a b \<in> set (block_marks info blk)"
      by auto
    from assms(3) blk(1) have
      "\<forall>item l p. blk = SceneLineItemBlock item \<longrightarrow> item_value item = Some l \<longrightarrow>
             p \<in> set (points l) \<longrightarrow> - 702 \<le> pt_x p"
      by blast
    from block_marks_vertex_nonneg [OF this ge blk(2)] show ?thesis .
  qed
  have r: "0 \<le> a"
    if "\<forall>item g r rs. SceneGlyphItemBlock item \<in> set blocks \<longrightarrow> item_value item = Some g \<longrightarrow>
                rectangles g = r # rs \<longrightarrow> - 702 \<le> rect_x r"
      and "Rect a b w h \<in> set (concat (map (block_marks info) blocks))" for a b w h
  proof -
    from that(2) obtain blk where blk: "blk \<in> set blocks" "Rect a b w h \<in> set (block_marks info blk)"
      by auto
    from that(1) blk(1) have
      "\<forall>item g r rs. blk = SceneGlyphItemBlock item \<longrightarrow> item_value item = Some g \<longrightarrow>
             rectangles g = r # rs \<longrightarrow> - 702 \<le> rect_x r"
      by blast
    from block_marks_rect_nonneg [OF this ge blk(2)] show ?thesis .
  qed
  from info xd out m v r show ?thesis by blast
qed

theorem stroke_x_never_negative_witness:
  "\<exists>out. blocks_to_svg example_tools left_edge_doc [] = Inr out \<and>
     get_dimensions left_edge_doc =
       Inr \<lparr>height = PyInt 1, width = 712, xpos_delta = 702, ypos_delta = 0\<rparr> \<and>
     marks out = [Vertex 0 3, Vertex 0 3, Vertex 712 4] \<and>
     (\<forall>a b. Vertex a b \<in> set (marks out) \<longrightarrow> 0 \<le> a)"
proof -
  have pre: "\<forall>item l p. SceneLineItemBlock item \<in> set left_edge_doc \<longrightarrow> item_value item = Some l \<longrightarrow>
           p \<in> set (points l) \<longrightarrow> - 702 \<le> pt_x p"
    by (auto simp: left_edge_doc_def stroke_of_def stroke_item_def sample_def)
  from stroke_x_never_negative [OF left_edge_drawable pre, of "[]"]
  show ?thesis
    by (auto simp: left_edge_dimensions left_edge_marks)
qed

subsection \<open>The vertical offset and the trimmed height\<close>

lemma block_marks_y:
  assumes "ypos_delta info = 0" "m \<in> set (block_marks info b)"
  shows "mark_y m \<in> input_ys b"
proof (cases b)
  case (SceneLineItemBlock item)
  show ?thesis
  proof (cases "item_value item")
    case None
    with assms(2) SceneLineItemBlock show ?thesis by (simp add: block_marks_def)
  next
    case (Some l)
    with assms(2) SceneLineItemBlock obtain k v where k: "k < length (points l)"
      and v: "v \<in> set (sample_vertices info (points l) k)" and m: "m = Vertex (fst v) (snd v)"
      by (auto simp: block_marks_def stroke_marks_def)
    from v have "v = translate info (points l ! k) \<or>
                 (0 < k \<and> v = translate info (points l ! (k - 1)))"
      by (auto simp: sample_vertices_def split: if_splits)
    then obtain j where "j < length (points l)" "v = translate info (points l ! j)"
      using k by (auto intro: less_imp_diff_less)
    with assms(1) m have "mark_y m = pt_y (points l ! j)" "points l ! j \<in> set (points l)"
      by (simp_all add: translate_def)
    with SceneLineItemBlock Some show ?thesis
      by (auto simp: input_ys_def)
  qed
next
  case (SceneGlyphItemBlock item)
  show ?thesis
  proof (cases "item_value item")
    case None
    with assms(2) SceneGlyphItemBlock show ?thesis by (simp add: block_marks_def)
  next
    case (Some g)
    show ?thesis
    proof (cases "rectangles g")
      case Nil
      with assms(2) SceneGlyphItemBlock Some show ?thesis by (simp add: block_marks_def)
    next
      case (Cons r rs)
      with assms SceneGlyphItemBlock Some show ?thesis
        by (simp add: block_marks_def input_ys_def)
    qed
  qed
next
  case (RootTextBlock t)
  with assms(2) show ?thesis by (simp add: block_marks_def)
next
  case PageInfoBlock
  with assms(2) show ?thesis by (simp add: block_marks_def)
next
  case OtherBlock
  with assms(2) show ?thesis by (simp add: block_marks_def)
qed

text \<open>
  Claim C8. For every document with known bounds, \<^verbatim>\<open>get_dimensions\<close> returns, the
  vertical offset \<^verbatim>\<open>ypos_delta\<close> is 0 and the height is \<open>ceil(ymax - ymin)\<close>, to which
  \<open>ymin\<close> is added when \<open>ymin < 0\<close>: the page is trimmed. The y-coordinates are not
  shifted: when the drawing pass gets through, every y-coordinate that
  \<^verbatim>\<open>blocks_to_svg\<close> writes for a stroke or a highlight is the y-coordinate of a sample
  or of a first rectangle of the input, as it stands, also when \<open>ymin < 0\<close>.
\<close>

theorem get_dimensions_height_trim:
  assumes "get_limits blocks = Inr (Some xmin, Some xmax, Some ymin, Some ymax)"
  shows "\<exists>info. get_dimensions blocks = Inr info \<and>
           ypos_delta info = 0 \<and>
           height info = (if ymin < 0 then PyFloat (of_int \<lceil>ymax - ymin\<rceil> + ymin)
                          else PyInt \<lceil>ymax - ymin\<rceil>) \<and>
           (\<forall>T output. list_all (drawable T) blocks \<longrightarrow>
              (\<exists>output'. blocks_to_svg T blocks output = Inr output' \<and>
                 marks output' = marks output @ concat (map (block_marks info) blocks) \<and>
                 (\<forall>m \<in> set (concat (map (block_marks info) blocks)).
                    mark_y m \<in> \<Union> (input_ys ` set blocks))))"
proof -
  from get_dimensions_known [OF assms] obtain info where
    info: "get_dimensions blocks = Inr info"
    and y0: "ypos_delta info = 0"
    and h: "height info = (if ymin < 0 then PyFloat (of_int \<lceil>ymax - ymin\<rceil> + ymin)
                           else PyInt \<lceil>ymax - ymin\<rceil>)"
    by auto
  have ys: "\<forall>m \<in> set (concat (map (block_marks info) blocks)).
              mark_y m \<in> \<Union> (input_ys ` set blocks)"
    using block_marks_y [OF y0] by auto
  have "\<exists>out'. blocks_to_svg T blocks out = Inr out' \<and>
          marks out' = marks out @ concat (map (block_marks info) blocks)"
    if "list_all (drawable T) blocks" for T out
    using renders_with_marks [OF assms that, of out] info by auto
  with info y0 h ys show ?thesis by blast
qed

theorem get_dimensions_height_trim_witness:
  "get_limits above_page_doc = Inr (Some 0, Some 5, Some (- 10), Some 5) \<and>
   get_dimensions above_page_doc =
     Inr \<lparr>height = PyFloat 5, width = 5, xpos_delta = 702, ypos_delta = 0\<rparr> \<and>
   (\<exists>out. blocks_to_svg example_tools above_page_doc [] = Inr out \<and>
      marks out = [Vertex 702 (- 10), Vertex 702 (- 10), Vertex 707 5])"
proof -
  have d: "get_dimensions above_page_doc =
     Inr \<lparr>height = PyFloat 5, width = 5, xpos_delta = 702, ypos_delta = 0\<rparr>"
    by (simp add: get_dimensions_def above_page_limits XPOS_SHIFT_def SCREEN_WIDTH_def)
  from get_dimensions_height_trim [OF above_page_limits] obtain info where
    i: "get_dimensions above_page_doc = Inr info"
    and a: "\<forall>T out. list_all (drawable T) above_page_doc \<longrightarrow>
              (\<exists>out'. blocks_to_svg T above_page_doc out = Inr out' \<and>
                 marks out' = marks out @ concat (map (block_marks info) above_page_doc) \<and>
                 (\<forall>m \<in> set (concat (map (block_marks info) above_page_doc)).
                    mark_y m \<in> \<Union> (input_ys ` set above_page_doc)))"
    by blast
  from i d have info: "info = \<lparr>height = PyFloat 5, width = 5, xpos_delta = 702, ypos_delta = 0\<rparr>"
    by simp
  from a above_page_drawable
  have "\<exists>out'. blocks_to_svg example_tools above_page_doc [] = Inr out' \<and>
          marks out' = marks [] @ concat (map (block_marks info) above_page_doc)"
    by blast
  with above_page_limits d above_page_marks info show ?thesis
    by auto
qed

section \<open>The Markdown formatter\<close>

lemma strip_note: "strip (CHR 0xA0 # ''  a note '') = ''a note''"
  by (simp add: strip_def py_space_def)

text \<open>
  Claim C5. The claim: a paragraph whose trimmed text is not empty and whose style is not
  one of heading, bold, plain, bullet, bullet 2 is written to the output document as plain
  text, with a warning, and is never absent from the output document. The code prints
  such a paragraph with \<^verbatim>\<open>print\<close> without \<^verbatim>\<open>file=fout\<close>, as
  \<^verbatim>\<open>[unknown format <style>] <text>\<close>: it goes to standard output, whatever \<^verbatim>\<open>fout\<close>
  is. When \<^verbatim>\<open>fout\<close> is the file of \<^verbatim>\<open>-o\<close>, the document does not hold the paragraph.
  Amended: for such a paragraph the formatter writes nothing through \<^verbatim>\<open>fout\<close> and
  appends the line \<^verbatim>\<open>[unknown format <style>] <trimmed text>\<close> to standard output; so
  the output document is unchanged when it is a file, and gains that line, and no plain
  text of the paragraph, when the output document is standard output itself.
\<close>

theorem unknown_style_not_in_document:
  "strip (CHR 0xA0 # ''  a note '') \<noteq> [] \<and>
   \<not> recognized (OTHER_STYLE 0) \<and>
   print_text example_lib [note_block (CHR 0xA0 # ''  a note '')] ToFile
       \<lparr>out_file = [], stdout = []\<rparr> =
     \<lparr>out_file = [],
      stdout = ''processing text block\<newline>[unknown format ParagraphStyle.BASIC] a note\<newline>''\<rparr> \<and>
   document ToFile
     (print_text example_lib [note_block (CHR 0xA0 # ''  a note '')] ToFile
        \<lparr>out_file = [], stdout = []\<rparr>) = []"
  by (simp add: strip_note recognized_def example_lib_def note_block_def print_paragraph_def
        print_stdout_def print_fout_def document_def)

theorem unknown_style_is_diagnostic_only:
  assumes "strip (par_str p) \<noteq> []" "\<not> recognized (par_style p)"
  shows "print_paragraph lib fout p st =
           st\<lparr>stdout := stdout st @ ''[unknown format '' @ style_str lib (par_style p) @ ''] '' @
                                    strip (par_str p) @ ''\<newline>''\<rparr> \<and>
         document ToFile (print_paragraph lib ToFile p st) = document ToFile st \<and>
         document ToStdout (print_paragraph lib ToStdout p st) =
           document ToStdout st @ ''[unknown format '' @ style_str lib (par_style p) @ ''] '' @
             strip (par_str p) @ ''\<newline>''"
  using assms
  by (simp add: print_paragraph_def recognized_def print_stdout_def document_def Let_def)

theorem unknown_style_is_diagnostic_only_witness:
  "print_paragraph example_lib ToFile
       \<lparr>par_style = OTHER_STYLE 0, par_str = CHR 0xA0 # ''  a note ''\<rparr>
       \<lparr>out_file = ''# Title\<newline>\<newline>'', stdout = []\<rparr> =
     \<lparr>out_file = ''# Title\<newline>\<newline>'',
      stdout = ''[unknown format ParagraphStyle.BASIC] a note\<newline>''\<rparr> \<and>
   print_paragraph example_lib ToStdout
       \<lparr>par_style = OTHER_STYLE 0, par_str = CHR 0xA0 # ''  a note ''\<rparr>
       \<lparr>out_file = [], stdout = ''# Title\<newline>\<newline>''\<rparr> =
     \<lparr>out_file = [],
      stdout = ''# Title\<newline>\<newline>[unknown format ParagraphStyle.BASIC] a note\<newline>''\<rparr>"
  using unknown_style_is_diagnostic_only
    [of "\<lparr>par_style = OTHER_STYLE 0, par_str = CHR 0xA0 # ''  a note ''\<rparr>" example_lib ToFile
        "\<lparr>out_file = ''# Title\<newline>\<newline>'', stdout = []\<rparr>"]
    unknown_style_is_diagnostic_only
    [of "\<lparr>par_style = OTHER_STYLE 0, par_str = CHR 0xA0 # ''  a note ''\<rparr>" example_lib ToStdout
        "\<lparr>out_file = [], stdout = ''# Title\<newline>\<newline>''\<rparr>"]
  by (simp add: strip_note recognized_def example_lib_def)

end
